theory Spec2Isabelle
  imports Complex_Main
begin

section \<open>Python values and exceptions\<close>

text \<open>
  The module \<^verbatim>\<open>aibench/python/sh_commands.py\<close> drives Android devices through the
  \<^verbatim>\<open>sh\<close> library. Every exception the modelled functions can raise is a value of
  \<open>exc\<close>: \<open>ErrorReturnCode n err\<close> is \<^verbatim>\<open>sh.ErrorReturnCode_n\<close> with its \<^verbatim>\<open>stderr\<close>,
  \<open>CommandNotFound\<close> is \<^verbatim>\<open>sh.CommandNotFound\<close>, \<open>Timeout\<close> is \<^verbatim>\<open>filelock.Timeout\<close>,
  \<open>CheckFailed\<close> is the failure of \<^verbatim>\<open>aibench_check\<close> and \<open>SystemExit\<close> is what
  \<^verbatim>\<open>exit(1)\<close> raises. Of all these only \<open>ErrorReturnCode\<close> has the attribute \<^verbatim>\<open>stderr\<close>.
  A computation that can raise returns \<open>exc + 'a\<close>, with \<open>Inl\<close> the exception.
\<close>

datatype exc =
    ErrorReturnCode nat string
  | CommandNotFound
  | OSError
  | KeyError string
  | IndexError
  | ValueError
  | AttributeError
  | IOError
  | Timeout
  | CheckFailed string
  | SystemExit int

text \<open>\<^verbatim>\<open>except sh.ErrorReturnCode_1\<close> catches exit status 1 only.\<close>

definition is_ErrorReturnCode_1 :: "exc \<Rightarrow> bool" where
  "is_ErrorReturnCode_1 e = (case e of ErrorReturnCode n err \<Rightarrow> n = 1 | _ \<Rightarrow> False)"

text \<open>\<^verbatim>\<open>except Exception\<close> catches everything but \<^verbatim>\<open>SystemExit\<close>.\<close>

definition is_Exception :: "exc \<Rightarrow> bool" where
  "is_Exception e = (case e of SystemExit n \<Rightarrow> False | _ \<Rightarrow> True)"

text \<open>
  The enumerations of \<^verbatim>\<open>base_pb2\<close>: the members the module names, and every other member
  by its number.
\<close>

datatype executor_type = MACE | SNPE | TFLITE | OtherExecutor nat

datatype device_type = DSP | OtherDevice nat

datatype benchmark_option = Precision | OtherOption nat

text \<open>
  A benchmark job, the dictionary \<^verbatim>\<open>prepare_all_models\<close> builds with the four keys of
  \<^verbatim>\<open>AIBenchKeyword\<close>.
\<close>

record bench_item =
  executor :: executor_type
  model_name :: nat
  device_type :: device_type
  quantize :: bool

section \<open>String primitives\<close>

text \<open>
  The module is Python 2 (\<^verbatim>\<open>except Exception, e\<close>, \<^verbatim>\<open>urllib.urlretrieve\<close>). Whitespace as
  \<^verbatim>\<open>strip()\<close> and \<^verbatim>\<open>split()\<close> of a byte string read it, and as the pattern \<^verbatim>\<open>\s\<close> reads it
  (compiled without \<^verbatim>\<open>re.UNICODE\<close>, also on decoded text):
\<close>

definition is_space :: "char \<Rightarrow> bool" where
  "is_space c = (c \<in> set [CHR '' '', CHR 0x09, CHR 0x0A, CHR 0x0B, CHR 0x0C, CHR 0x0D])"

text \<open>The pattern \<^verbatim>\<open>\w\<close>: letters, digits and the underscore.\<close>

definition is_word :: "char \<Rightarrow> bool" where
  "is_word c =
     (c \<in> set ''abcdefghijklmnopqrstuvwxyzABCDEFGHIJKLMNOPQRSTUVWXYZ0123456789_'')"

definition is_digit :: "char \<Rightarrow> bool" where
  "is_digit c = (c \<in> set ''0123456789'')"

definition strip :: "string \<Rightarrow> string" where
  "strip s = rev (dropWhile is_space (rev (dropWhile is_space s)))"

text \<open>
  The output of an \<^verbatim>\<open>sh\<close> command that is read through a string method is decoded text
  (\<^verbatim>\<open>unicode(self)\<close>), a character of the model standing for a code point below 256.
  \<^verbatim>\<open>strip()\<close> of decoded text removes the Unicode whitespace: next to the six characters
  above, the separators 0x1C to 0x1F, the next-line character 0x85 and the no-break space
  0xA0.
\<close>

definition is_uspace :: "char \<Rightarrow> bool" where
  "is_uspace c =
     (is_space c \<or> c \<in> set [CHR 0x1C, CHR 0x1D, CHR 0x1E, CHR 0x1F, CHR 0x85, CHR 0xA0])"

definition ustrip :: "string \<Rightarrow> string" where
  "ustrip s = rev (dropWhile is_uspace (rev (dropWhile is_uspace s)))"

text \<open>\<^verbatim>\<open>s.split(sep)\<close> for a one-character separator: every occurrence splits.\<close>

fun split_on :: "char \<Rightarrow> string \<Rightarrow> string list" where
  "split_on sep [] = [[]]"
| "split_on sep (c # cs) =
     (if c = sep then [] # split_on sep cs
      else (case split_on sep cs of
              [] \<Rightarrow> [[c]]
            | p # ps \<Rightarrow> (c # p) # ps))"

text \<open>\<^verbatim>\<open>s.split()\<close>: the maximal runs of characters that are not whitespace.\<close>

fun ws_tokens :: "string \<Rightarrow> string \<Rightarrow> string list" where
  "ws_tokens cur [] = (if cur = [] then [] else [cur])"
| "ws_tokens cur (c # cs) =
     (if is_space c then (if cur = [] then ws_tokens [] cs else cur # ws_tokens [] cs)
      else ws_tokens (cur @ [c]) cs)"

definition py_split :: "string \<Rightarrow> string list" where
  "py_split s = ws_tokens [] s"

definition startswith :: "string \<Rightarrow> string \<Rightarrow> bool" where
  "startswith s p = (take (length p) s = p)"

text \<open>
  \<^verbatim>\<open>s.replace(old, new)\<close>: the occurrences of \<open>old\<close> are replaced from the left, without
  overlap. For an empty \<open>old\<close> Python puts \<open>new\<close> before every character and at the end.
\<close>

function str_replace :: "string \<Rightarrow> string \<Rightarrow> string \<Rightarrow> string" where
  "str_replace old new s =
     (if old = [] then new @ concat (map (\<lambda>c. c # new) s)
      else if s = [] then []
      else if startswith s old then new @ str_replace old new (drop (length old) s)
      else hd s # str_replace old new (tl s))"
  by pat_completeness auto
termination
  by (relation "measure (\<lambda>(old, new, s). length s)") auto

declare str_replace.simps [simp del]

text \<open>\<^verbatim>\<open>os.path.basename\<close> and \<^verbatim>\<open>os.path.join\<close> of two components (POSIX).\<close>

definition basename :: "string \<Rightarrow> string" where
  "basename p = rev (takeWhile (\<lambda>c. c \<noteq> CHR ''/'') (rev p))"

definition path_join :: "string \<Rightarrow> string \<Rightarrow> string" where
  "path_join a b =
     (if startswith b ''/'' then b
      else if a = [] \<or> last a = CHR ''/'' then a @ b
      else a @ ''/'' @ b)"

text \<open>
  The digits of a natural number in a base up to 16, lower case: decimal as \<^verbatim>\<open>%d\<close> prints
  it, hexadecimal as \<^verbatim>\<open>hex\<close> does after its \<^verbatim>\<open>0x\<close>.
\<close>

definition digit_char :: "nat \<Rightarrow> char" where
  "digit_char d = ''0123456789abcdef'' ! d"

function show_digits :: "nat \<Rightarrow> nat \<Rightarrow> string" where
  "show_digits base n =
     (if base < 2 \<or> n < base then [digit_char n]
      else show_digits base (n div base) @ [digit_char (n mod base)])"
  by pat_completeness auto
termination
  by (relation "measure (\<lambda>(base, n). n)") auto

declare show_digits.simps [simp del]

definition show_nat :: "nat \<Rightarrow> string" where
  "show_nat n = show_digits 10 n"

definition hex_digits :: "nat \<Rightarrow> string" where
  "hex_digits n = show_digits 16 n"

section \<open>Build target to binary path\<close>

text \<open>
  \<^verbatim>\<open>prefix, bin_name = target.split(':')\<close> raises ValueError unless the split has exactly
  two parts.
\<close>

definition bazel_target_to_bin :: "string \<Rightarrow> exc + (string \<times> string)" where
  "bazel_target_to_bin target =
     (case split_on CHR '':'' target of
        [prefix0, bin_name] \<Rightarrow>
          (let prefix1 = str_replace ''//'' ''/'' prefix0;
               prefix2 = (if startswith prefix1 ''/'' then drop 1 prefix1 else prefix1);
               host_bin_path = ''bazel-bin/'' @ prefix2
           in Inr (host_bin_path, bin_name))
      | _ \<Rightarrow> Inl ValueError)"

section \<open>The world outside the module\<close>

text \<open>
  Everything the module does to the outside is an event. A command of the \<^verbatim>\<open>sh\<close> library
  is recorded with its argument list as the source passes it. \<open>AdbBenchmark\<close> is the
  \<^verbatim>\<open>sh.adb("-s", serialno, "shell", "%s %s" % (cmd, args), _fg=True)\<close> of the batch loop: it
  holds the serial number, the command prefix \<^verbatim>\<open>cmd\<close> with the affinity mask, and the values
  the source formats into \<^verbatim>\<open>args\<close> (run interval, thread count, benchmark option and the
  job). \<open>Print\<close> is a line written to the console.
\<close>

datatype event =
    Adb "string list"
  | AdbBenchmark string string int int benchmark_option bench_item
  | Bash "string list"
  | Iconv string "string list"
  | Urlretrieve string string
  | FileLockAcquire string nat
  | FileLockRelease string
  | Sleep int
  | Print string

text \<open>
  The environment answers every command: the command returns its standard output, fails
  with an exit status and its standard error, or does not run at all (\<open>NotFound\<close>,
  \<open>Broken\<close>), and the world moves on. The local file system, the clock and the process
  environment are read from the world;
  \<open>sys_maxint\<close> is the interpreter's \<^verbatim>\<open>sys.maxint\<close>. Nothing is assumed about the answers.
\<close>

datatype reply = Failed nat string | NotFound | Broken | Output string

record 'w env =
  exec :: "event \<Rightarrow> 'w \<Rightarrow> reply \<times> 'w"
  time_now :: "'w \<Rightarrow> real"
  path_isfile :: "'w \<Rightarrow> string \<Rightarrow> bool"
  path_isdir :: "'w \<Rightarrow> string \<Rightarrow> bool"
  path_exists :: "'w \<Rightarrow> string \<Rightarrow> bool"
  listdir :: "'w \<Rightarrow> string \<Rightarrow> string list"
  md5_hexdigest :: "'w \<Rightarrow> string \<Rightarrow> string option"
  environ :: "string \<Rightarrow> string option"
  sys_maxint :: int

text \<open>The state of a run: the world, and the trace of the events so far.\<close>

record 'w st =
  world :: 'w
  trace :: "event list"

type_synonym ('w, 'a) action = "'w st \<Rightarrow> (exc + 'a) \<times> 'w st"

definition ok :: "'a \<Rightarrow> ('w, 'a) action" where
  "ok x s = (Inr x, s)"

definition raise :: "exc \<Rightarrow> ('w, 'a) action" where
  "raise e s = (Inl e, s)"

text \<open>Sequencing: an exception of the first action ends the sequence.\<close>

definition seq :: "('w, 'a) action \<Rightarrow> ('a \<Rightarrow> ('w, 'b) action) \<Rightarrow> ('w, 'b) action" where
  "seq m f s = (case m s of (Inl e, s') \<Rightarrow> (Inl e, s') | (Inr x, s') \<Rightarrow> f x s')"

text \<open>\<^verbatim>\<open>try: m  except <handled>: h(e)  else: f(x)\<close>\<close>

definition try_except ::
  "('w, 'a) action \<Rightarrow> (exc \<Rightarrow> bool) \<Rightarrow> (exc \<Rightarrow> ('w, 'b) action) \<Rightarrow> ('a \<Rightarrow> ('w, 'b) action)
   \<Rightarrow> ('w, 'b) action" where
  "try_except m handled h f s =
     (case m s of
        (Inl e, s') \<Rightarrow> (if handled e then h e s' else (Inl e, s'))
      | (Inr x, s') \<Rightarrow> f x s')"

text \<open>A computation that does not touch the world.\<close>

definition of_result :: "exc + 'a \<Rightarrow> ('w, 'a) action" where
  "of_result r s = (r, s)"

definition gets :: "('w \<Rightarrow> 'a) \<Rightarrow> ('w, 'a) action" where
  "gets f s = (Inr (f (world s)), s)"

text \<open>
  What a failed command raises. A command of the \<^verbatim>\<open>sh\<close> library that exits with a status
  other than 0 raises \<^verbatim>\<open>ErrorReturnCode_<status>\<close>; the file lock raises \<^verbatim>\<open>Timeout\<close>, a
  download or a sleep raises \<^verbatim>\<open>IOError\<close>.
\<close>

definition failure_of :: "event \<Rightarrow> nat \<Rightarrow> string \<Rightarrow> exc" where
  "failure_of c n err =
     (case c of
        FileLockAcquire path timeout \<Rightarrow> Timeout
      | Urlretrieve url path \<Rightarrow> IOError
      | Sleep t \<Rightarrow> IOError
      | _ \<Rightarrow> ErrorReturnCode n err)"

text \<open>
  A command of the \<^verbatim>\<open>sh\<close> library can also fail before its process runs: the program is
  not on the path (\<^verbatim>\<open>sh.CommandNotFound\<close>, the reply \<open>NotFound\<close>) or the process cannot be
  started (\<^verbatim>\<open>OSError\<close>, the reply \<open>Broken\<close>).
\<close>

definition unstarted_of :: "event \<Rightarrow> exc \<Rightarrow> exc" where
  "unstarted_of c e =
     (case c of
        FileLockAcquire path timeout \<Rightarrow> Timeout
      | Urlretrieve url path \<Rightarrow> IOError
      | Sleep t \<Rightarrow> IOError
      | _ \<Rightarrow> e)"

text \<open>A command: the event joins the trace whether the command raises or not.\<close>

definition run :: "'w env \<Rightarrow> event \<Rightarrow> ('w, string) action" where
  "run env c s =
     (case exec env c (world s) of
        (Failed n err, w') \<Rightarrow> (Inl (failure_of c n err), \<lparr>world = w', trace = trace s @ [c]\<rparr>)
      | (NotFound, w') \<Rightarrow>
          (Inl (unstarted_of c CommandNotFound), \<lparr>world = w', trace = trace s @ [c]\<rparr>)
      | (Broken, w') \<Rightarrow> (Inl (unstarted_of c OSError), \<lparr>world = w', trace = trace s @ [c]\<rparr>)
      | (Output out, w') \<Rightarrow> (Inr out, \<lparr>world = w', trace = trace s @ [c]\<rparr>))"

definition say :: "string \<Rightarrow> ('w, unit) action" where
  "say msg s = (Inr (), s\<lparr>trace := trace s @ [Print msg]\<rparr>)"

text \<open>\<^verbatim>\<open>for x in xs: f(x)\<close>\<close>

fun for_each :: "('a \<Rightarrow> ('w, unit) action) \<Rightarrow> 'a list \<Rightarrow> ('w, unit) action" where
  "for_each f [] = ok ()"
| "for_each f (x # xs) = seq (f x) (\<lambda>_. for_each f xs)"

text \<open>\<^verbatim>\<open>d[key]\<close> on a dictionary.\<close>

definition dict_get :: "(string \<Rightarrow> 'v option) \<Rightarrow> string \<Rightarrow> ('w, 'v) action" where
  "dict_get d k = (case d k of None \<Rightarrow> raise (KeyError k) | Some v \<Rightarrow> ok v)"

section \<open>Device registry\<close>

definition strip_invalid_utf8 :: "'w env \<Rightarrow> string \<Rightarrow> ('w, string) action" where
  "strip_invalid_utf8 env str = run env (Iconv str [''-c'', ''-t'', ''UTF-8''])"

text \<open>\<^verbatim>\<open>[l.strip() for l in stdout_str.split('\n') if len(l.strip()) > 0]\<close>\<close>

definition stdout_lines :: "string \<Rightarrow> string list" where
  "stdout_lines stdout_str =
     map ustrip (filter (\<lambda>l. length (ustrip l) > 0) (split_on CHR 0x0A stdout_str))"

definition split_stdout :: "'w env \<Rightarrow> string \<Rightarrow> ('w, string list) action" where
  "split_stdout env stdout_str =
     seq (strip_invalid_utf8 env stdout_str) (\<lambda>stdout_str. ok (stdout_lines stdout_str))"

definition device_lock_path :: "string \<Rightarrow> string" where
  "device_lock_path serialno = ''/tmp/device-lock-'' @ serialno"

text \<open>
  \<^verbatim>\<open>re.compile(r'(\w+)\s+device').match(line)\<close>: the match starts at the head of the line
  and need not reach its end. Group 1 is the whole leading run of word characters: a
  shorter group would leave a word character where \<^verbatim>\<open>\s\<close> must match, and a shorter
  whitespace run would leave whitespace where \<^verbatim>\<open>d\<close> must match.
\<close>

definition match_device_line :: "string \<Rightarrow> string option" where
  "match_device_line line =
     (let group1 = takeWhile is_word line;
          rest = dropWhile is_word line
      in if group1 \<noteq> [] \<and> takeWhile is_space rest \<noteq> []
              \<and> startswith (dropWhile is_space rest) ''device''
         then Some group1 else None)"

fun collect_serialnos :: "string list \<Rightarrow> string list \<Rightarrow> string list" where
  "collect_serialnos serialnos [] = serialnos"
| "collect_serialnos serialnos (line # lines) =
     (case match_device_line line of
        Some group1 \<Rightarrow> collect_serialnos (serialnos @ [group1]) lines
      | None \<Rightarrow> collect_serialnos serialnos lines)"

definition adb_devices :: "'w env \<Rightarrow> ('w, string list) action" where
  "adb_devices env =
     seq (run env (Adb [''devices''])) (\<lambda>out.
     seq (split_stdout env out) (\<lambda>lines.
       ok (collect_serialnos [] lines)))"

text \<open>
  \<^verbatim>\<open>re.compile(r'\[(.+)\]: \[(.+)\]').match(raw_prop)\<close>. Both groups are greedy: group 1
  is the longest non-empty text after the opening bracket that is followed by
  \<^verbatim>\<open>]: [\<close>, a non-empty group 2 and a closing bracket; group 2 then runs to the last
  closing bracket of the line.
\<close>

definition match_prop_line :: "string \<Rightarrow> (string \<times> string) option" where
  "match_prop_line raw_prop =
     (case raw_prop of
        [] \<Rightarrow> None
      | c # rest \<Rightarrow>
          if c \<noteq> CHR ''['' then None
          else
            (case filter (\<lambda>n. startswith (drop n rest) '']: [''
                                 \<and> CHR '']'' \<in> set (drop (n + 5) rest))
                         (rev [1 ..< Suc (length rest)]) of
               [] \<Rightarrow> None
             | n # _ \<Rightarrow>
                 (let tail = drop (n + 4) rest;
                      k = length tail - 1 - length (takeWhile (\<lambda>c. c \<noteq> CHR '']'') (rev tail))
                  in Some (take n rest, take k tail))))"

fun collect_props :: "(string \<Rightarrow> string option) \<Rightarrow> string list \<Rightarrow> (string \<Rightarrow> string option)" where
  "collect_props props [] = props"
| "collect_props props (raw_prop # raw_props) =
     (case match_prop_line raw_prop of
        Some (k, v) \<Rightarrow> collect_props (props(k \<mapsto> v)) raw_props
      | None \<Rightarrow> collect_props props raw_props)"

definition adb_getprop_by_serialno ::
  "'w env \<Rightarrow> string \<Rightarrow> ('w, string \<Rightarrow> string option) action" where
  "adb_getprop_by_serialno env serialno =
     seq (run env (Adb [''-s'', serialno, ''shell'', ''getprop''])) (\<lambda>outputs.
     seq (split_stdout env outputs) (\<lambda>raw_props.
       ok (collect_props Map.empty raw_props)))"

section \<open>Checksum cache and artifact stager\<close>

text \<open>\<^verbatim>\<open>file_checksum\<close> opens the file and hashes it; a file that cannot be opened raises.\<close>

definition file_checksum :: "'w env \<Rightarrow> string \<Rightarrow> ('w, string) action" where
  "file_checksum env fname =
     seq (gets (\<lambda>w. md5_hexdigest env w fname)) (\<lambda>digest.
       case digest of None \<Rightarrow> raise IOError | Some d \<Rightarrow> ok d)"

text \<open>
  The callback \<^verbatim>\<open>_out\<close> receives the output line by line, each line with its newline;
  \<^verbatim>\<open>stdout_buff[0].split()[0]\<close> raises IndexError when there is no line or no token.
\<close>

fun out_lines :: "string \<Rightarrow> string list" where
  "out_lines [] = []"
| "out_lines (c # cs) =
     (if c = CHR 0x0A then [c] # out_lines cs
      else (case out_lines cs of
              [] \<Rightarrow> [[c]]
            | l # ls \<Rightarrow> (c # l) # ls))"

definition first_token :: "string list \<Rightarrow> exc + string" where
  "first_token stdout_buff =
     (case stdout_buff of
        [] \<Rightarrow> Inl IndexError
      | line # _ \<Rightarrow> (case py_split line of [] \<Rightarrow> Inl IndexError | tok # _ \<Rightarrow> Inr tok))"

definition adb_push_file :: "'w env \<Rightarrow> string \<Rightarrow> string \<Rightarrow> string \<Rightarrow> ('w, unit) action" where
  "adb_push_file env src_file dst_dir serialno =
     seq (gets (\<lambda>w. path_isfile env w src_file)) (\<lambda>isfile.
       if \<not> isfile then say (''Not file, skip pushing '' @ src_file)
       else
         seq (file_checksum env src_file) (\<lambda>src_checksum.
         let dst_file = path_join dst_dir (basename src_file) in
         try_except (run env (Adb [''-s'', serialno, ''shell'', ''md5sum'', dst_file]))
           is_ErrorReturnCode_1
           (\<lambda>e. seq (say (''Push '' @ src_file @ '' to '' @ dst_dir)) (\<lambda>_.
                 seq (run env (Adb [''-s'', serialno, ''push'', src_file, dst_dir])) (\<lambda>_.
                   ok ())))
           (\<lambda>out.
              seq (of_result (first_token (out_lines out))) (\<lambda>dst_checksum.
                if src_checksum = dst_checksum
                then say (''Equal checksum with '' @ src_file @ '' and '' @ dst_file)
                else seq (say (''Push '' @ src_file @ '' to '' @ dst_dir)) (\<lambda>_.
                     seq (run env (Adb [''-s'', serialno, ''push'', src_file, dst_dir])) (\<lambda>_.
                       ok ()))))))"

definition adb_push :: "'w env \<Rightarrow> string \<Rightarrow> string \<Rightarrow> string \<Rightarrow> ('w, unit) action" where
  "adb_push env src_path dst_dir serialno =
     seq (gets (\<lambda>w. path_isdir env w src_path)) (\<lambda>isdir.
       if isdir then
         seq (gets (\<lambda>w. listdir env w src_path)) (\<lambda>src_files.
           for_each (\<lambda>src_file. adb_push_file env (path_join src_path src_file) dst_dir serialno)
             src_files)
       else adb_push_file env src_path dst_dir serialno)"

text \<open>
  \<^verbatim>\<open>except Exception as e: print("Error msg: %s" % e.stderr)\<close>: the handler reads the
  \<^verbatim>\<open>stderr\<close> attribute. An exit status carries it; on every other exception the read
  raises \<^verbatim>\<open>AttributeError\<close>, inside the handler.
\<close>

definition stderr_of :: "exc \<Rightarrow> ('w, string) action" where
  "stderr_of e = (case e of ErrorReturnCode n err \<Rightarrow> ok err | _ \<Rightarrow> raise AttributeError)"

definition adb_pull :: "'w env \<Rightarrow> string \<Rightarrow> string \<Rightarrow> string \<Rightarrow> ('w, unit) action" where
  "adb_pull env src_path dst_path serialno =
     seq (say (''Pull '' @ src_path @ '' to '' @ dst_path)) (\<lambda>_.
       try_except (run env (Adb [''-s'', serialno, ''pull'', src_path, dst_path]))
         is_Exception
         (\<lambda>e. seq (stderr_of e) (\<lambda>err. say (''Error msg: '' @ err)))
         (\<lambda>_. ok ()))"

text \<open>
  \<^verbatim>\<open>not os.path.exists(p) or file_checksum(p) != checksum\<close>: the checksum is computed only
  for a path that exists.
\<close>

definition needs_download :: "'w env \<Rightarrow> string \<Rightarrow> string \<Rightarrow> ('w, bool) action" where
  "needs_download env file_path checksum =
     seq (gets (\<lambda>w. path_exists env w file_path)) (\<lambda>present.
       if \<not> present then ok True
       else seq (file_checksum env file_path) (\<lambda>c. ok (c \<noteq> checksum)))"

definition download_file ::
  "'w env \<Rightarrow> (string \<Rightarrow> string option) \<Rightarrow> string \<Rightarrow> string \<Rightarrow> ('w, string) action" where
  "download_file env configs filename output_dir =
     (let file_path = output_dir @ ''/'' @ filename in
      seq (dict_get configs filename) (\<lambda>url.
      seq (dict_get configs (filename @ ''_md5_checksum'')) (\<lambda>checksum.
      seq (needs_download env file_path checksum) (\<lambda>stale.
      seq (if stale
           then seq (say (''downloading '' @ filename @ ''...'')) (\<lambda>_.
                seq (run env (Urlretrieve url file_path)) (\<lambda>_. ok ()))
           else ok ()) (\<lambda>_.
      seq (file_checksum env file_path) (\<lambda>c.
        if c \<noteq> checksum
        then seq (say (''file '' @ filename @ '' md5 checksum not match'')) (\<lambda>_.
               raise (SystemExit 1))
        else ok file_path))))))"

text \<open>
  Modelled from the spec: \<^verbatim>\<open>aibench_check\<close> of \<^verbatim>\<open>aibench/python/utils/common.py\<close>, which
  is not among the sources. The spec's \<^verbatim>\<open>verifyOrFail\<close> "raises a Checksum Mismatch failure
  (fatal to the calling stage) when digests differ".
\<close>

definition aibench_check :: "bool \<Rightarrow> string \<Rightarrow> ('w, unit) action" where
  "aibench_check condition msg = (if condition then ok () else raise (CheckFailed msg))"

definition get_model_file ::
  "'w env \<Rightarrow> string \<Rightarrow> string \<Rightarrow> string \<Rightarrow> string list \<Rightarrow> ('w, string list) action" where
  "get_model_file env file_path checksum output_dir push_list =
     (let filename = last (split_on CHR ''/'' file_path) in
      seq (if startswith file_path ''http''
           then (let local_file_path = output_dir @ ''/'' @ filename in
                 seq (needs_download env local_file_path checksum) (\<lambda>stale.
                 seq (if stale
                      then seq (say (''downloading '' @ filename @ ''...'')) (\<lambda>_.
                           seq (run env (Urlretrieve file_path local_file_path)) (\<lambda>_. ok ()))
                      else ok ()) (\<lambda>_.
                 seq (file_checksum env local_file_path) (\<lambda>c.
                 seq (aibench_check (c = checksum)
                        (''file '' @ filename @ '' md5 checksum not match'')) (\<lambda>_.
                   ok local_file_path)))))
           else (let local_file_path = file_path in
                 seq (file_checksum env local_file_path) (\<lambda>c.
                 seq (aibench_check (c = checksum)
                        (''file '' @ filename @ '' md5 checksum not match'')) (\<lambda>_.
                   ok local_file_path)))) (\<lambda>local_file_path.
        ok (push_list @ [local_file_path])))"

text \<open>
  \<^verbatim>\<open>prepare_device_env\<close>: the libraries an ABI and the executors need. An empty library
  path is skipped; \<^verbatim>\<open>os.environ["ANDROID_NDK_HOME"]\<close> raises KeyError when unset.
\<close>

definition prepare_device_env ::
  "'w env \<Rightarrow> string \<Rightarrow> string \<Rightarrow> string \<Rightarrow> executor_type list \<Rightarrow> ('w, unit) action" where
  "prepare_device_env env serialno abi device_bin_path executors =
     (let opencv_lib_path =
        (if abi = ''armeabi-v7a''
         then ''bazel-mobile-ai-bench/external/opencv/sdk/native/libs/armeabi-v7a/libopencv_java3.so''
         else if abi = ''arm64-v8a''
         then ''bazel-mobile-ai-bench/external/opencv/sdk/native/libs/arm64-v8a/libopencv_java3.so''
         else []) in
      seq (if opencv_lib_path \<noteq> [] then adb_push env opencv_lib_path device_bin_path serialno
           else ok ()) (\<lambda>_.
      seq (if SNPE \<in> set executors then
             (let snpe_lib_path =
                (if abi = ''armeabi-v7a''
                 then ''bazel-mobile-ai-bench/external/snpe/lib/arm-android-gcc4.9''
                 else if abi = ''arm64-v8a''
                 then ''bazel-mobile-ai-bench/external/snpe/lib/aarch64-android-gcc4.9''
                 else []) in
              seq (if snpe_lib_path \<noteq> [] then
                     seq (adb_push env snpe_lib_path device_bin_path serialno) (\<lambda>_.
                     seq (dict_get (environ env) ''ANDROID_NDK_HOME'') (\<lambda>ndk_home.
                       adb_push env
                         (ndk_home @ ''/sources/cxx-stl/gnu-libstdc++/4.9/libs/'' @ abi
                            @ ''/libgnustl_shared.so'')
                         device_bin_path serialno))
                   else ok ()) (\<lambda>_.
                adb_push env ''bazel-mobile-ai-bench/external/snpe/lib/dsp'' device_bin_path
                  serialno))
           else ok ()) (\<lambda>_.
      seq (if MACE \<in> set executors \<and> abi = ''armeabi-v7a''
           then adb_push env ''third_party/mace/nnlib/libhexagon_controller.so'' device_bin_path
                  serialno
           else ok ()) (\<lambda>_.
        if TFLITE \<in> set executors then
          (let tflite_lib_path =
             (if abi = ''armeabi-v7a''
              then ''third_party/tflite/tensorflow/contrib/lite/lib/armeabi-v7a/libtensorflowLite.so''
              else if abi = ''arm64-v8a''
              then ''third_party/tflite/tensorflow/contrib/lite/lib/arm64-v8a/libtensorflowLite.so''
              else []) in
           if tflite_lib_path \<noteq> [] then adb_push env tflite_lib_path device_bin_path serialno
           else ok ())
        else ok ()))))"

definition push_all_models :: "'w env \<Rightarrow> string \<Rightarrow> string \<Rightarrow> string list \<Rightarrow> ('w, unit) action" where
  "push_all_models env serialno device_bin_path push_list =
     for_each (\<lambda>path. adb_push env path device_bin_path serialno) push_list"

definition push_precision_files :: "'w env \<Rightarrow> string \<Rightarrow> string \<Rightarrow> string \<Rightarrow> ('w, unit) action" where
  "push_precision_files env serialno device_bin_path input_dir =
     seq (run env (Adb [''-s'', serialno, ''shell'', ''mkdir -p '' @ device_bin_path])) (\<lambda>_.
     seq (adb_push env ''aibench/benchmark/imagenet/imagenet_blacklist.txt'' device_bin_path
            serialno) (\<lambda>_.
     seq (adb_push env ''aibench/benchmark/imagenet/imagenet_groundtruth_labels.txt''
            device_bin_path serialno) (\<lambda>_.
     seq (adb_push env ''aibench/benchmark/imagenet/mobilenet_model_labels.txt'' device_bin_path
            serialno) (\<lambda>_.
       if input_dir \<noteq> [] then
         (let imagenet_input_path = device_bin_path @ ''/inputs/'' in
          seq (say (''Pushing images from '' @ input_dir @ '' to '' @ imagenet_input_path
                      @ '' ...'')) (\<lambda>_.
          seq (run env (Adb [''-s'', serialno, ''shell'', ''mkdir -p '' @ imagenet_input_path])) (\<lambda>_.
          seq (run env (Adb [''-s'', serialno, ''push'', input_dir, imagenet_input_path])) (\<lambda>_.
          let base_dir = (if last input_dir \<noteq> CHR ''/'' then basename input_dir
                          else basename (butlast input_dir)) in
          seq (run env (Adb [''-s'', serialno, ''shell'',
                  ''mv '' @ imagenet_input_path @ base_dir @ ''/* '' @ imagenet_input_path])) (\<lambda>_.
            ok ())))))
       else ok ()))))"

section \<open>CPU affinity mask\<close>

text \<open>
  \<^verbatim>\<open>int(sh.adb(...))\<close> reads the stripped output as a decimal integer with an optional
  sign, and raises ValueError (here \<open>None\<close>) otherwise.
\<close>

definition py_int :: "string \<Rightarrow> int option" where
  "py_int out =
     (let t = strip out;
          ds = (if t \<noteq> [] \<and> (hd t = CHR ''-'' \<or> hd t = CHR ''+'') then tl t else t);
          v = foldl (\<lambda>n c. 10 * n + int (length (takeWhile (\<lambda>d. d \<noteq> c) ''0123456789''))) 0 ds
      in if ds \<noteq> [] \<and> list_all is_digit ds
         then Some (if hd t = CHR ''-'' then - v else v)
         else None)"

text \<open>
  The loop \<^verbatim>\<open>while True\<close> of \<^verbatim>\<open>get_cpu_mask\<close>: it reads the maximum frequency of core
  \<open>cpu_id\<close> and stops at the first read that exits with status 1 or does not print an
  integer; any other failure propagates. A device that answers every read keeps the loop
  running: the result is then \<open>None\<close>.
\<close>

partial_function (option) read_freq_list ::
  "'w env \<Rightarrow> string \<Rightarrow> nat \<Rightarrow> int list \<Rightarrow> 'w st \<Rightarrow> ((exc + int list) \<times> 'w st) option" where
  "read_freq_list env serialno cpu_id freq_list s =
     (case run env (Adb [''-s'', serialno, ''shell'',
                         ''cat /sys/devices/system/cpu/cpu'' @ show_nat cpu_id
                           @ ''/cpufreq/cpuinfo_max_freq'']) s of
        (Inl e, s') \<Rightarrow>
          if is_ErrorReturnCode_1 e then Some (Inr freq_list, s') else Some (Inl e, s')
      | (Inr out, s') \<Rightarrow>
          (case py_int out of
             None \<Rightarrow> Some (Inr freq_list, s')
           | Some freq \<Rightarrow> read_freq_list env serialno (cpu_id + 1) (freq_list @ [freq]) s'))"

text \<open>\<^verbatim>\<open>max(freq_list)\<close> on a non-empty list.\<close>

definition py_max :: "int list \<Rightarrow> int" where
  "py_max xs = fold max (tl xs) (hd xs)"

text \<open>
  \<^verbatim>\<open>for freq in freq_list: cpu_mask = '1' + cpu_mask if freq == max(freq_list) else '0' + cpu_mask\<close>:
  \<open>freq_list\<close> is the whole list, \<open>rest\<close> what the loop has still to visit.
\<close>

fun build_mask :: "int list \<Rightarrow> int list \<Rightarrow> string \<Rightarrow> string" where
  "build_mask freq_list [] cpu_mask = cpu_mask"
| "build_mask freq_list (freq # rest) cpu_mask =
     build_mask freq_list rest
       ((if freq = py_max freq_list then CHR ''1'' else CHR ''0'') # cpu_mask)"

text \<open>
  \<^verbatim>\<open>int(cpu_mask, 2)\<close> on a string of binary digits, the only strings \<open>build_mask\<close> makes:
  the empty string raises ValueError.
\<close>

definition int_base2 :: "string \<Rightarrow> exc + int" where
  "int_base2 cpu_mask =
     (if cpu_mask \<noteq> [] \<and> list_all (\<lambda>c. c = CHR ''0'' \<or> c = CHR ''1'') cpu_mask
      then Inr (foldl (\<lambda>n c. 2 * n + (if c = CHR ''1'' then 1 else 0)) 0 cpu_mask)
      else Inl ValueError)"

text \<open>
  \<^verbatim>\<open>hex(n)\<close>. The module is Python 2 (\<^verbatim>\<open>except Exception, e\<close>), where an integer beyond
  \<^verbatim>\<open>sys.maxint\<close> is a \<^verbatim>\<open>long\<close> and its \<^verbatim>\<open>hex\<close> ends with \<^verbatim>\<open>L\<close>.
\<close>

definition py_hex :: "int \<Rightarrow> int \<Rightarrow> string" where
  "py_hex maxint n =
     (if n < 0 then ''-'' else []) @ ''0x'' @ hex_digits (nat \<bar>n\<bar>)
       @ (if maxint < n \<or> n < - maxint - 1 then ''L'' else [])"

text \<open>The lines of \<^verbatim>\<open>get_cpu_mask\<close> after the read loop.\<close>

definition cpu_mask_of :: "int \<Rightarrow> int list \<Rightarrow> exc + string" where
  "cpu_mask_of maxint freq_list =
     (let cpu_mask = build_mask freq_list freq_list [] in
      case int_base2 cpu_mask of
        Inl e \<Rightarrow> Inl e
      | Inr n \<Rightarrow> Inr (drop 2 (py_hex maxint n)))"

definition get_cpu_mask :: "'w env \<Rightarrow> string \<Rightarrow> 'w st \<Rightarrow> ((exc + string) \<times> 'w st) option" where
  "get_cpu_mask env serialno s =
     (case read_freq_list env serialno 0 [] s of
        None \<Rightarrow> None
      | Some (Inl e, s') \<Rightarrow> Some (Inl e, s')
      | Some (Inr freq_list, s') \<Rightarrow> Some (cpu_mask_of (sys_maxint env) freq_list, s'))"

section \<open>Execution scheduler\<close>

text \<open>The command prefix \<^verbatim>\<open>cmd\<close> of the benchmark invocations of one lock hold.\<close>

definition benchmark_cmd :: "string \<Rightarrow> string \<Rightarrow> string" where
  "benchmark_cmd device_bin_path cpu_mask =
     ''cd '' @ device_bin_path @ ''; ADSP_LIBRARY_PATH='' @ [CHR 0x27]
       @ ''.;/system/lib/rfsa/adsp;/system/vendor/lib/rfsa/adsp;/dsp'' @ [CHR 0x27]
       @ ''; LD_LIBRARY_PATH=. taskset '' @ cpu_mask @ '' ./model_benchmark''"

text \<open>The arguments of \<^verbatim>\<open>adb_run\<close>.\<close>

record run_params =
  abi :: string
  serialno :: string
  host_bin_path :: string
  bin_name :: string
  benchmark_option :: benchmark_option
  input_dir :: string
  run_interval :: int
  num_threads :: int
  max_time_per_lock :: real
  push_list :: "string list"
  benchmark_list :: "bench_item list"
  executors :: "executor_type list"
  device_bin_path :: string
  output_dir :: string

text \<open>
  The inner loop of \<^verbatim>\<open>adb_run\<close>, entered with \<^verbatim>\<open>elapse_minutes = 0\<close>:
  \<^verbatim>\<open>while elapse_minutes < max_time_per_lock and i < len(benchmark_list)\<close>. It returns the
  index \<open>i\<close> it stops at.
\<close>

function run_batch ::
  "'w env \<Rightarrow> run_params \<Rightarrow> string \<Rightarrow> real \<Rightarrow> real \<Rightarrow> nat \<Rightarrow> ('w, nat) action" where
  "run_batch env p cmd start_time elapse_minutes i s =
     (if elapse_minutes < max_time_per_lock p \<and> i < length (benchmark_list p) then
        (let item = benchmark_list p ! i in
         case run env (AdbBenchmark (serialno p) cmd (run_interval p) (num_threads p)
                         (benchmark_option p) item) s of
           (Inl e, s') \<Rightarrow> (Inl e, s')
         | (Inr out, s') \<Rightarrow>
             run_batch env p cmd start_time ((time_now env (world s') - start_time) / 60)
               (i + 1) s')
      else (Inr i, s))"
  by pat_completeness auto
termination
  by (relation "measure (\<lambda>(env, p, cmd, start_time, elapse_minutes, i, s).
        length (benchmark_list p) - i)") auto

declare run_batch.simps [simp del]

text \<open>
  The statements under the lock before the affinity mask is read. A failure of the power
  script is caught (\<^verbatim>\<open>except Exception\<close>); every other failure propagates. The progress
  messages of \<^verbatim>\<open>adb_run\<close> itself are not part of the trace.
\<close>

definition lock_setup :: "'w env \<Rightarrow> run_params \<Rightarrow> string \<Rightarrow> ('w, unit) action" where
  "lock_setup env p target_soc =
     seq (try_except (run env (Bash [''tools/power.sh'', serialno p, target_soc]))
            is_Exception (\<lambda>e. ok ()) (\<lambda>_. ok ())) (\<lambda>_.
     seq (run env (Adb [''-s'', serialno p, ''shell'', ''mkdir -p '' @ device_bin_path p])) (\<lambda>_.
     seq (run env (Adb [''-s'', serialno p, ''shell'',
                        ''rm -rf '' @ path_join (device_bin_path p) ''interior''])) (\<lambda>_.
     seq (run env (Adb [''-s'', serialno p, ''shell'',
                        ''mkdir '' @ path_join (device_bin_path p) ''interior''])) (\<lambda>_.
     seq (prepare_device_env env (serialno p) (abi p) (device_bin_path p) (executors p)) (\<lambda>_.
     seq (push_all_models env (serialno p) (device_bin_path p) (push_list p)) (\<lambda>_.
     seq (if benchmark_option p = Precision
          then push_precision_files env (serialno p) (device_bin_path p) (input_dir p)
          else ok ()) (\<lambda>_.
       adb_push env (host_bin_path p @ ''/'' @ bin_name p) (device_bin_path p)
         (serialno p))))))))"

text \<open>The body of \<^verbatim>\<open>with device_lock(serialno):\<close>, from \<^verbatim>\<open>start_time = time.time()\<close> on.\<close>

definition locked_section ::
  "'w env \<Rightarrow> run_params \<Rightarrow> string \<Rightarrow> nat \<Rightarrow> 'w st \<Rightarrow> ((exc + nat) \<times> 'w st) option" where
  "locked_section env p target_soc i s =
     (let start_time = time_now env (world s) in
      case lock_setup env p target_soc s of
        (Inl e, s1) \<Rightarrow> Some (Inl e, s1)
      | (Inr u, s1) \<Rightarrow>
          (case get_cpu_mask env (serialno p) s1 of
             None \<Rightarrow> None
           | Some (Inl e, s2) \<Rightarrow> Some (Inl e, s2)
           | Some (Inr cpu_mask, s2) \<Rightarrow>
               Some (run_batch env p (benchmark_cmd (device_bin_path p) cpu_mask) start_time 0 i
                       s2)))"

text \<open>
  One lock hold. The lock (\<^verbatim>\<open>device_lock\<close>, with its timeout of 3600 seconds) is
  released on every way out of the body; a lock that times out was never held.
\<close>

definition lock_hold ::
  "'w env \<Rightarrow> run_params \<Rightarrow> string \<Rightarrow> nat \<Rightarrow> 'w st \<Rightarrow> ((exc + nat) \<times> 'w st) option" where
  "lock_hold env p target_soc i s =
     (case run env (FileLockAcquire (device_lock_path (serialno p)) 3600) s of
        (Inl e, s1) \<Rightarrow> Some (Inl e, s1)
      | (Inr u, s1) \<Rightarrow>
          (case locked_section env p target_soc i s1 of
             None \<Rightarrow> None
           | Some (r, s2) \<Rightarrow>
               Some (r, snd (run env (FileLockRelease (device_lock_path (serialno p))) s2))))"

text \<open>
  The outer loop \<^verbatim>\<open>while i < len(benchmark_list)\<close>: a lock hold, then
  \<^verbatim>\<open>time.sleep(run_interval)\<close>. A loop that never ends is \<open>None\<close>.
\<close>

partial_function (option) adb_run_loop ::
  "'w env \<Rightarrow> run_params \<Rightarrow> string \<Rightarrow> nat \<Rightarrow> 'w st \<Rightarrow> ((exc + unit) \<times> 'w st) option" where
  "adb_run_loop env p target_soc i s =
     (if i < length (benchmark_list p) then
        (case lock_hold env p target_soc i s of
           None \<Rightarrow> None
         | Some (Inl e, s1) \<Rightarrow> Some (Inl e, s1)
         | Some (Inr i', s1) \<Rightarrow>
             (case run env (Sleep (run_interval p)) s1 of
                (Inl e, s2) \<Rightarrow> Some (Inl e, s2)
              | (Inr u, s2) \<Rightarrow> adb_run_loop env p target_soc i' s2))
      else Some (Inr (), s))"

text \<open>The statements of \<^verbatim>\<open>adb_run\<close> before the loop.\<close>

definition adb_run_prologue :: "'w env \<Rightarrow> run_params \<Rightarrow> ('w, string \<times> string) action" where
  "adb_run_prologue env p =
     seq (run env (Adb [''-s'', serialno p, ''shell'',
                        ''rm -rf '' @ path_join (device_bin_path p) ''result.txt''])) (\<lambda>_.
     seq (adb_getprop_by_serialno env (serialno p)) (\<lambda>props.
     seq (dict_get props ''ro.product.model'') (\<lambda>product_model.
     seq (dict_get props ''ro.board.platform'') (\<lambda>target_soc.
       ok (product_model, target_soc)))))"

definition result_path :: "run_params \<Rightarrow> string \<Rightarrow> string \<Rightarrow> string" where
  "result_path p product_model target_soc =
     output_dir p @ ''/'' @ product_model @ ''_'' @ target_soc @ ''_'' @ abi p @ ''_''
       @ ''result.txt''"

definition adb_run :: "'w env \<Rightarrow> run_params \<Rightarrow> 'w st \<Rightarrow> ((exc + string) \<times> 'w st) option" where
  "adb_run env p s =
     (case adb_run_prologue env p s of
        (Inl e, s1) \<Rightarrow> Some (Inl e, s1)
      | (Inr (product_model, target_soc), s1) \<Rightarrow>
          (case adb_run_loop env p target_soc 0 s1 of
             None \<Rightarrow> None
           | Some (Inl e, s2) \<Rightarrow> Some (Inl e, s2)
           | Some (Inr u, s2) \<Rightarrow>
               (let src_path = device_bin_path p @ ''/result.txt'';
                    dest_path = result_path p product_model target_soc
                in case adb_pull env src_path dest_path (serialno p) s2 of
                     (Inl e, s3) \<Rightarrow> Some (Inl e, s3)
                   | (Inr u, s3) \<Rightarrow> Some (Inr dest_path, s3))))"

text \<open>The jobs a trace has invoked, in the order of their invocation.\<close>

fun job_of :: "event \<Rightarrow> bench_item list" where
  "job_of (AdbBenchmark sn cmd ri nt opt item) = [item]"
| "job_of _ = []"

definition jobs_run :: "event list \<Rightarrow> bench_item list" where
  "jobs_run tr = concat (map job_of tr)"

section \<open>Notions the properties are stated with\<close>

text \<open>A path with two adjacent slashes.\<close>

fun has_double_slash :: "string \<Rightarrow> bool" where
  "has_double_slash [] = False"
| "has_double_slash [a] = False"
| "has_double_slash (a # b # cs) =
     ((a = CHR ''/'' \<and> b = CHR ''/'') \<or> has_double_slash (b # cs))"

text \<open>
  A device-list dump made of lines: the lines, none of which holds a newline, joined by
  newlines.
\<close>

fun join_lines :: "string list \<Rightarrow> string" where
  "join_lines [] = []"
| "join_lines [l] = l"
| "join_lines (l # m # ls) = l @ CHR 0x0A # join_lines (m # ls)"

text \<open>
  The line \<^verbatim>\<open><serial> device\<close> as the property words it: a serial, which is not empty and
  holds no blank, then whitespace, then the word \<^verbatim>\<open>device\<close>, which ends the line.
\<close>

definition serial_device_line :: "string \<Rightarrow> string \<Rightarrow> bool" where
  "serial_device_line serial line =
     (\<exists>ws. serial \<noteq> [] \<and> \<not> list_ex is_uspace serial \<and> ws \<noteq> [] \<and> list_all is_space ws
        \<and> line = serial @ ws @ ''device'')"

text \<open>
  A line without the whitespace around it: \<open>core\<close> is what is left of \<open>line\<close> when the
  Unicode whitespace at its two ends is taken away.
\<close>

definition stripped :: "string \<Rightarrow> string \<Rightarrow> bool" where
  "stripped line core =
     (\<exists>a b. line = a @ core @ b \<and> list_all is_uspace a \<and> list_all is_uspace b
        \<and> (core = [] \<or> (\<not> is_uspace (hd core) \<and> \<not> is_uspace (last core))))"

text \<open>
  What the pattern of the code accepts: a line that begins with a non-empty serial of
  word characters, some whitespace and the letters \<^verbatim>\<open>device\<close>, whatever comes after them.
\<close>

definition pattern_line :: "string \<Rightarrow> string \<Rightarrow> bool" where
  "pattern_line serial line =
     (\<exists>ws rest. serial \<noteq> [] \<and> list_all is_word serial \<and> ws \<noteq> [] \<and> list_all is_space ws
        \<and> line = serial @ ws @ ''device'' @ rest)"

text \<open>An action that invokes no benchmark job.\<close>

definition quiet :: "('w, 'a) action \<Rightarrow> bool" where
  "quiet m = (\<forall>s. jobs_run (trace (snd (m s))) = jobs_run (trace s))"

text \<open>The lock acquisitions and the transfers to the device in a trace.\<close>

fun is_lock_acquire :: "event \<Rightarrow> bool" where
  "is_lock_acquire (FileLockAcquire path timeout) = True"
| "is_lock_acquire _ = False"

definition lock_acquisitions :: "event list \<Rightarrow> nat" where
  "lock_acquisitions tr = length (filter is_lock_acquire tr)"

definition is_push :: "event \<Rightarrow> bool" where
  "is_push c = (case c of Adb args \<Rightarrow> length args = 5 \<and> args ! 2 = ''push'' | _ \<Rightarrow> False)"

definition pushes :: "event list \<Rightarrow> event list" where
  "pushes tr = filter is_push tr"



text \<open>
  A device for the examples. The world is the clock, in seconds, and the paths of the
  files on the device. The device has four cores; a benchmark takes forty minutes and no
  other command takes time. \<^verbatim>\<open>md5sum\<close> knows the files that were pushed, and every local
  file of \<open>files\<close> comes with its digest.
\<close>

definition demo_reply :: "event \<Rightarrow> real \<times> string list \<Rightarrow> reply" where
  "demo_reply c w =
     (case c of
        Adb args \<Rightarrow>
          (if args = [''devices''] then
             Output (''List of devices attached\<newline>abc123'' @ [CHR 0x09]
                     @ ''device\<newline>def456'' @ [CHR 0x09]
                     @ ''offline\<newline>emulator-5554'' @ [CHR 0x09]
                     @ ''device\<newline>xyz789   device\<newline>'' @ [CHR 0x1C]
                     @ '' R58M_42q  devices\<newline>\<newline>'')
           else if length args = 4 \<and> args ! 3 = ''getprop'' then
             Output ''[ro.product.model]: [MI 8]\<newline>[ro.board.platform]: [sdm845]\<newline>''
           else if length args = 5 \<and> args ! 3 = ''md5sum'' then
             (if args ! 4 \<in> set (snd w) then Output (''0123abcd  '' @ args ! 4 @ ''\<newline>'')
              else Failed 1 ''md5sum: No such file or directory'')
           else if length args = 4
                   \<and> args ! 3 = ''cat /sys/devices/system/cpu/cpu0/cpufreq/cpuinfo_max_freq''
           then Output ''100\<newline>''
           else if length args = 4
                   \<and> args ! 3 = ''cat /sys/devices/system/cpu/cpu1/cpufreq/cpuinfo_max_freq''
           then Output ''200\<newline>''
           else if length args = 4
                   \<and> args ! 3 = ''cat /sys/devices/system/cpu/cpu2/cpufreq/cpuinfo_max_freq''
           then Output ''200\<newline>''
           else if length args = 4
                   \<and> args ! 3 = ''cat /sys/devices/system/cpu/cpu3/cpufreq/cpuinfo_max_freq''
           then Output ''100\<newline>''
           else if length args = 4 \<and> startswith (args ! 3) ''cat ''
           then Failed 1 ''cat: No such file or directory''
           else Output [])
      | Iconv str args \<Rightarrow> Output str
      | _ \<Rightarrow> Output [])"

definition demo_step :: "event \<Rightarrow> real \<times> string list \<Rightarrow> real \<times> string list" where
  "demo_step c w =
     (case c of
        Adb args \<Rightarrow>
          (if length args = 5 \<and> args ! 2 = ''push''
           then (fst w, path_join (args ! 4) (basename (args ! 3)) # snd w)
           else w)
      | AdbBenchmark sn cmd ri nt opt item \<Rightarrow> (fst w + 2400, snd w)
      | _ \<Rightarrow> w)"

definition demo_env :: "(string \<times> string) list \<Rightarrow> (real \<times> string list) env" where
  "demo_env files =
     \<lparr>exec = (\<lambda>c w. (demo_reply c w, demo_step c w)),
      time_now = (\<lambda>w. fst w),
      path_isfile = (\<lambda>w f. map_of files f \<noteq> None),
      path_isdir = (\<lambda>w f. False),
      path_exists = (\<lambda>w f. map_of files f \<noteq> None),
      listdir = (\<lambda>w f. []),
      md5_hexdigest = (\<lambda>w f. map_of files f),
      environ = (\<lambda>k. None),
      sys_maxint = 2 ^ 63 - 1\<rparr>"

definition demo_start :: "(real \<times> string list) st" where
  "demo_start = \<lparr>world = (0, []), trace = []\<rparr>"

definition demo_job :: "nat \<Rightarrow> bench_item" where
  "demo_job n = \<lparr>executor = MACE, model_name = n, device_type = OtherDevice 0, quantize = False\<rparr>"

definition demo_params :: "real \<Rightarrow> bench_item list \<Rightarrow> run_params" where
  "demo_params budget jobs =
     \<lparr>abi = ''arm64-v8a'', serialno = ''abc123'',
      host_bin_path = ''bazel-bin/aibench/benchmark'', bin_name = ''model_benchmark'',
      benchmark_option = OtherOption 0, input_dir = [], run_interval = 1, num_threads = 4,
      max_time_per_lock = budget, push_list = [], benchmark_list = jobs,
      executors = [MACE], device_bin_path = ''/data/local/tmp/aibench'',
      output_dir = ''output''\<rparr>"

text \<open>A host on which every command exits with status 2; the local file is in place.\<close>

definition failing_env :: "unit env" where
  "failing_env =
     \<lparr>exec = (\<lambda>c w. (Failed 2 ''error: closed'', w)),
      time_now = (\<lambda>w. 0),
      path_isfile = (\<lambda>w f. True),
      path_isdir = (\<lambda>w f. False),
      path_exists = (\<lambda>w f. True),
      listdir = (\<lambda>w f. []),
      md5_hexdigest = (\<lambda>w f. Some ''0123abcd''),
      environ = (\<lambda>k. None),
      sys_maxint = 2 ^ 63 - 1\<rparr>"


text \<open>A device on which no core can be read.\<close>

definition no_cores_env :: "unit env" where
  "no_cores_env = failing_env\<lparr>exec := (\<lambda>c w. (Failed 1 ''cat: No such file or directory'', w))\<rparr>"

text \<open>A host on which \<^verbatim>\<open>adb\<close> is not installed.\<close>

definition no_adb_env :: "unit env" where
  "no_adb_env = failing_env\<lparr>exec := (\<lambda>c w. (NotFound, w))\<rparr>"

text \<open>An action that acquires no lock.\<close>

definition lockless :: "('w, 'a) action \<Rightarrow> bool" where
  "lockless m = (\<forall>s. lock_acquisitions (trace (snd (m s))) = lock_acquisitions (trace s))"

section \<open>Properties\<close>

subsection \<open>Evaluating the model\<close>

text \<open>
  The rules that run an action on a state: a definition is unfolded once it is applied to
  the state, and the continuation of a sequence is left alone until its first action has
  run.
\<close>

lemmas monad_defs = seq_def ok_def raise_def gets_def say_def run_def try_except_def of_result_def
  failure_of_def unstarted_of_def is_ErrorReturnCode_1_def is_Exception_def

lemmas string_defs = show_nat_def show_digits.simps digit_char_def startswith_def py_int_def
  strip_def ustrip_def is_space_def is_uspace_def is_digit_def is_word_def path_join_def
  basename_def py_split_def
  first_token_def

lemma demo_env_sel:
  "exec (demo_env files) c w = (demo_reply c w, demo_step c w)"
  "time_now (demo_env files) w = fst w"
  "path_isfile (demo_env files) w f = (map_of files f \<noteq> None)"
  "path_isdir (demo_env files) w f = False"
  "path_exists (demo_env files) w f = (map_of files f \<noteq> None)"
  "listdir (demo_env files) w f = []"
  "md5_hexdigest (demo_env files) w f = map_of files f"
  "environ (demo_env files) k = None"
  "sys_maxint (demo_env files) = 2 ^ 63 - 1"
  by (simp_all add: demo_env_def)

lemma demo_params_sel:
  "abi (demo_params b js) = ''arm64-v8a''"
  "serialno (demo_params b js) = ''abc123''"
  "host_bin_path (demo_params b js) = ''bazel-bin/aibench/benchmark''"
  "bin_name (demo_params b js) = ''model_benchmark''"
  "benchmark_option (demo_params b js) = OtherOption 0"
  "input_dir (demo_params b js) = []"
  "run_interval (demo_params b js) = 1"
  "num_threads (demo_params b js) = 4"
  "max_time_per_lock (demo_params b js) = b"
  "push_list (demo_params b js) = []"
  "benchmark_list (demo_params b js) = js"
  "executors (demo_params b js) = [MACE]"
  "device_bin_path (demo_params b js) = ''/data/local/tmp/aibench''"
  "output_dir (demo_params b js) = ''output''"
  by (simp_all add: demo_params_def)

lemmas demo_defs = demo_env_sel demo_params_sel demo_reply_def demo_step_def demo_start_def

lemma seq_weak_cong: "m = m' \<Longrightarrow> s = s' \<Longrightarrow> seq m f s = seq m' f s'"
  by simp

lemma try_except_weak_cong:
  "m = m' \<Longrightarrow> s = s' \<Longrightarrow> try_except m handled h f s = try_except m' handled h f s'"
  by simp

lemmas applied_defs =
  dict_get_def [THEN fun_cong] file_checksum_def [THEN fun_cong]
  adb_push_file_def [THEN fun_cong] adb_push_def [THEN fun_cong] adb_pull_def [THEN fun_cong]
  stderr_of_def [THEN fun_cong] needs_download_def [THEN fun_cong]
  download_file_def [THEN fun_cong] aibench_check_def [THEN fun_cong]
  get_model_file_def [THEN fun_cong] prepare_device_env_def [THEN fun_cong]
  push_all_models_def [THEN fun_cong] push_precision_files_def [THEN fun_cong]
  lock_setup_def [THEN fun_cong] adb_run_prologue_def [THEN fun_cong]
  adb_getprop_by_serialno_def [THEN fun_cong] split_stdout_def [THEN fun_cong]
  strip_invalid_utf8_def [THEN fun_cong] adb_devices_def [THEN fun_cong]

subsection \<open>Build target to binary path\<close>

lemma split_on_absent: "sep \<notin> set s \<Longrightarrow> split_on sep s = [s]"
  by (induction s) auto

lemma split_on_once:
  "sep \<notin> set p \<Longrightarrow> sep \<notin> set c \<Longrightarrow> split_on sep (p @ sep # c) = [p, c]"
  by (induction p) (auto simp: split_on_absent)

lemma str_replace_no_double_slash:
  "\<not> has_double_slash s \<Longrightarrow> str_replace ''//'' ''/'' s = s"
proof (induction s rule: has_double_slash.induct)
  case 1
  show ?case by (subst str_replace.simps) simp
next
  case (2 a)
  show ?case
    by (subst str_replace.simps, simp add: startswith_def, subst str_replace.simps, simp)
next
  case (3 a b cs)
  then show ?case
    by (subst str_replace.simps) (auto simp: startswith_def)
qed

lemma str_replace_leading:
  "str_replace ''//'' ''/'' (''//'' @ s) = ''/'' @ str_replace ''//'' ''/'' s"
  by (subst str_replace.simps) (simp add: startswith_def)

text \<open>
  C5 (as amended). For a target \<^verbatim>\<open>//p:c\<close> in which neither \<open>p\<close> nor \<open>c\<close> holds a colon
  and \<open>p\<close> has no doubled slash and no leading slash, \<^verbatim>\<open>bazel_target_to_bin\<close> returns the
  directory \<^verbatim>\<open>bazel-bin/p\<close> and the binary name \<open>c\<close>.
\<close>

theorem bazel_target_to_bin_path:
  assumes "CHR '':'' \<notin> set pth" and "CHR '':'' \<notin> set c"
    and "\<not> has_double_slash pth" and "\<not> startswith pth ''/''"
  shows "bazel_target_to_bin (''//'' @ pth @ '':'' @ c) = Inr (''bazel-bin/'' @ pth, c)"
proof -
  have "CHR '':'' \<notin> set (''//'' @ pth)" using assms(1) by simp
  then have sp: "split_on CHR '':'' ((''//'' @ pth) @ CHR '':'' # c) = [''//'' @ pth, c]"
    using assms(2) by (rule split_on_once)
  have rp: "str_replace ''//'' ''/'' (''//'' @ pth) = ''/'' @ pth"
    using assms(3) str_replace_leading [of pth] by (simp add: str_replace_no_double_slash)
  show ?thesis
    using sp rp by (simp add: bazel_target_to_bin_def startswith_def)
qed

theorem bazel_target_to_bin_path_witness:
  "CHR '':'' \<notin> set ''aibench/a/b'' \<and> CHR '':'' \<notin> set ''c''
   \<and> \<not> has_double_slash ''aibench/a/b'' \<and> \<not> startswith ''aibench/a/b'' ''/''
   \<and> bazel_target_to_bin ''//aibench/a/b:c'' = Inr (''bazel-bin/aibench/a/b'', ''c'')"
  using bazel_target_to_bin_path [of "''aibench/a/b''" "''c''"]
  by (simp add: startswith_def)

text \<open>
  C5 as stated fails: the directory of \<^verbatim>\<open>//aibench/a/b:c\<close> is not \<^verbatim>\<open>built/aibench/a/b\<close>.
\<close>

theorem bazel_target_to_bin_built_counterexample:
  "bazel_target_to_bin ''//aibench/a/b:c'' \<noteq> Inr (''built/aibench/a/b'', ''c'')"
  by code_simp

subsection \<open>Pulling results\<close>

lemma adb_pull_eq:
  "adb_pull env src_path dst_path sn s =
     (case fst (exec env (Adb [''-s'', sn, ''pull'', src_path, dst_path]) (world s)) of
        Failed n err \<Rightarrow> Inr ()
      | Output out \<Rightarrow> Inr ()
      | _ \<Rightarrow> Inl AttributeError,
      \<lparr>world = snd (exec env (Adb [''-s'', sn, ''pull'', src_path, dst_path]) (world s)),
       trace = trace s
         @ [Print (''Pull '' @ src_path @ '' to '' @ dst_path),
            Adb [''-s'', sn, ''pull'', src_path, dst_path]]
         @ (case fst (exec env (Adb [''-s'', sn, ''pull'', src_path, dst_path]) (world s)) of
              Failed n err \<Rightarrow> [Print (''Error msg: '' @ err)]
            | _ \<Rightarrow> [])\<rparr>)"
  by (simp add: adb_pull_def seq_def say_def try_except_def run_def failure_of_def
        unstarted_of_def is_Exception_def stderr_of_def ok_def raise_def
        split: prod.splits reply.splits)

text \<open>
  C3 fails on the code when the pull command raises an exception that has no \<^verbatim>\<open>stderr\<close>.
  \<^verbatim>\<open>adb_pull\<close> returns normally when the command succeeds and when it exits with a status
  other than 0, whose standard error it logs. When \<^verbatim>\<open>adb\<close> is not found or its process
  cannot be started, the handler itself raises \<^verbatim>\<open>AttributeError\<close>, nothing is logged and
  the exception leaves \<^verbatim>\<open>adb_pull\<close>.
\<close>

theorem adb_pull_raises_without_stderr:
  "adb_pull env src_path dst_path sn s =
     (case fst (exec env (Adb [''-s'', sn, ''pull'', src_path, dst_path]) (world s)) of
        Output out \<Rightarrow> Inr ()
      | Failed n err \<Rightarrow> Inr ()
      | NotFound \<Rightarrow> Inl AttributeError
      | Broken \<Rightarrow> Inl AttributeError,
      \<lparr>world = snd (exec env (Adb [''-s'', sn, ''pull'', src_path, dst_path]) (world s)),
       trace = trace s
         @ [Print (''Pull '' @ src_path @ '' to '' @ dst_path),
            Adb [''-s'', sn, ''pull'', src_path, dst_path]]
         @ (case fst (exec env (Adb [''-s'', sn, ''pull'', src_path, dst_path]) (world s)) of
              Failed n err \<Rightarrow> [Print (''Error msg: '' @ err)]
            | _ \<Rightarrow> [])\<rparr>)"
proof -
  let ?pull = "Adb [''-s'', sn, ''pull'', src_path, dst_path]"
  obtain r w' where x: "exec env ?pull (world s) = (r, w')"
    by (cases "exec env ?pull (world s)")
  show ?thesis
  proof (cases r)
    case (Failed n err)
    with x show ?thesis
      by (simp add: adb_pull_def monad_defs stderr_of_def)
  next
    case NotFound
    with x show ?thesis
      by (simp add: adb_pull_def monad_defs stderr_of_def)
  next
    case Broken
    with x show ?thesis
      by (simp add: adb_pull_def monad_defs stderr_of_def)
  next
    case (Output out)
    with x show ?thesis
      by (simp add: adb_pull_def monad_defs stderr_of_def)
  qed
qed

theorem adb_pull_raises_without_stderr_witness:
  "adb_pull no_adb_env ''/data/local/tmp/aibench/result.txt'' ''output/result.txt'' ''abc123''
     \<lparr>world = (), trace = []\<rparr>
   = (Inl AttributeError,
      \<lparr>world = (),
       trace = [Print ''Pull /data/local/tmp/aibench/result.txt to output/result.txt'',
                Adb [''-s'', ''abc123'', ''pull'', ''/data/local/tmp/aibench/result.txt'',
                     ''output/result.txt'']]\<rparr>)"
  using adb_pull_raises_without_stderr
          [of no_adb_env "''/data/local/tmp/aibench/result.txt''" "''output/result.txt''"
              "''abc123''" "\<lparr>world = (), trace = []\<rparr>"]
  by (simp add: no_adb_env_def failing_env_def)

subsection \<open>Listing the connected devices\<close>

lemma space_not_word: "is_space c \<Longrightarrow> \<not> is_word c"
  by (auto simp: is_space_def is_word_def)

lemma startswith_split: "startswith s p \<Longrightarrow> s = p @ drop (length p) s"
  unfolding startswith_def by (metis append_take_drop_id)

lemma match_device_line_iff:
  "match_device_line line = Some serial \<longleftrightarrow> pattern_line serial line"
proof
  assume m: "match_device_line line = Some serial"
  let ?r = "dropWhile is_word line"
  from m have s: "serial = takeWhile is_word line" and ne: "serial \<noteq> []"
    and ws: "takeWhile is_space ?r \<noteq> []"
    and dv: "startswith (dropWhile is_space ?r) ''device''"
    by (auto simp: match_device_line_def Let_def split: if_splits)
  have 1: "line = serial @ ?r" by (simp add: s)
  have 2: "?r = takeWhile is_space ?r @ dropWhile is_space ?r" by simp
  have 3: "dropWhile is_space ?r = ''device'' @ drop (length ''device'') (dropWhile is_space ?r)"
    using dv by (rule startswith_split)
  have w: "list_all is_word serial"
    unfolding s list_all_iff by (auto dest: set_takeWhileD)
  have sp: "list_all is_space (takeWhile is_space ?r)"
    unfolding list_all_iff by (auto dest: set_takeWhileD)
  have "line = serial @ takeWhile is_space ?r @ ''device''
                  @ drop (length ''device'') (dropWhile is_space ?r)"
    using 1 2 3 by metis
  with ne ws w sp show "pattern_line serial line"
    unfolding pattern_line_def by blast
next
  assume "pattern_line serial line"
  then obtain ws rest where ne: "serial \<noteq> []" and w: "list_all is_word serial"
    and wne: "ws \<noteq> []" and sp: "list_all is_space ws"
    and l: "line = serial @ ws @ ''device'' @ rest"
    unfolding pattern_line_def by blast
  from wne sp have hw: "\<not> is_word (hd (ws @ ''device'' @ rest))"
    by (cases ws) (auto dest: space_not_word)
  have tw: "takeWhile is_word line = serial"
    unfolding l using w hw wne
    by (subst takeWhile_append2) (auto simp: list_all_iff takeWhile_eq_Nil_iff)
  have dw: "dropWhile is_word line = ws @ ''device'' @ rest"
    unfolding l using w hw wne
    by (subst dropWhile_append2) (auto simp: list_all_iff dropWhile_eq_self_iff)
  have ns: "\<not> is_space CHR ''d''" by (simp add: is_space_def)
  have ts: "takeWhile is_space (ws @ ''device'' @ rest) = ws"
    using sp ns by (subst takeWhile_append2) (auto simp: list_all_iff)
  have ds: "dropWhile is_space (ws @ ''device'' @ rest) = ''device'' @ rest"
    using sp ns by (subst dropWhile_append2) (auto simp: list_all_iff)
  show "match_device_line line = Some serial"
    using ts ds by (simp add: match_device_line_def Let_def tw dw ne wne startswith_def)
qed



lemma collect_serialnos_eq:
  "collect_serialnos acc lines =
     acc @ map (the \<circ> match_device_line) (filter (\<lambda>l. match_device_line l \<noteq> None) lines)"
  by (induction lines arbitrary: acc) (auto split: option.splits)

lemma match_device_line_Nil: "match_device_line [] = None"
  by (simp add: match_device_line_def)

lemma collect_stdout_lines:
  "collect_serialnos [] (map ustrip (filter (\<lambda>l. ustrip l \<noteq> []) xs))
     = List.map_filter (\<lambda>l. match_device_line (ustrip l)) xs"
  by (induction xs) (auto simp: collect_serialnos_eq map_filter_def match_device_line_Nil)

lemma split_on_line:
  "sep \<notin> set l \<Longrightarrow> split_on sep (l @ sep # rest) = l # split_on sep rest"
  by (induction l) auto

lemma split_on_join_lines:
  "ls \<noteq> [] \<Longrightarrow> \<forall>l \<in> set ls. CHR 0x0A \<notin> set l \<Longrightarrow> split_on CHR 0x0A (join_lines ls) = ls"
  by (induction ls rule: join_lines.induct) (simp_all add: split_on_absent split_on_line)

lemma stdout_lines_join_lines:
  assumes "\<forall>l \<in> set ls. CHR 0x0A \<notin> set l"
  shows "collect_serialnos [] (stdout_lines (join_lines ls))
           = List.map_filter (\<lambda>l. match_device_line (ustrip l)) ls"
proof (cases "ls = []")
  case True
  then show ?thesis
    by (simp add: stdout_lines_def ustrip_def map_filter_def)
next
  case False
  from False assms have "split_on CHR 0x0A (join_lines ls) = ls" by (rule split_on_join_lines)
  then show ?thesis by (simp add: stdout_lines_def collect_stdout_lines)
qed

lemma uspace_not_word: "is_uspace c \<Longrightarrow> \<not> is_word c"
  by (auto simp: is_uspace_def is_space_def is_word_def)

lemma ustrip_unchanged:
  assumes "s \<noteq> []" and "\<not> is_uspace (hd s)" and "\<not> is_uspace (last s)"
  shows "ustrip s = s"
proof -
  from assms have a: "dropWhile is_uspace s = s"
    by (cases s) auto
  from assms have "dropWhile is_uspace (rev s) = rev s"
    by (cases "rev s") (auto simp: last_rev [symmetric] simp del: last_rev)
  with a show ?thesis by (simp add: ustrip_def)
qed

lemma ustrip_stripped: "stripped line (ustrip line)"
proof -
  let ?m = "dropWhile is_uspace line"
  let ?a = "takeWhile is_uspace line"
  let ?b = "rev (takeWhile is_uspace (rev ?m))"
  have "rev (ustrip line @ ?b) = rev ?m" by (simp add: ustrip_def)
  then have m: "?m = ustrip line @ ?b" by (simp only: rev_is_rev_conv)
  have "line = ?a @ ?m" by simp
  with m have l: "line = ?a @ ustrip line @ ?b" by simp
  have a: "list_all is_uspace ?a"
    unfolding list_all_iff by (auto dest: set_takeWhileD)
  have b: "list_all is_uspace ?b"
    unfolding list_all_iff by (auto dest: set_takeWhileD)
  have c: "\<not> is_uspace (hd (ustrip line)) \<and> \<not> is_uspace (last (ustrip line))"
    if ne: "ustrip line \<noteq> []"
  proof
    from ne m have "hd (ustrip line) = hd ?m" by (metis hd_append2)
    moreover from ne m have "?m \<noteq> []" by (metis Nil_is_append_conv)
    then have "\<not> is_uspace (hd ?m)" by (rule hd_dropWhile)
    ultimately show "\<not> is_uspace (hd (ustrip line))" by simp
    from ne have d: "dropWhile is_uspace (rev ?m) \<noteq> []" by (simp add: ustrip_def)
    then have "\<not> is_uspace (hd (dropWhile is_uspace (rev ?m)))" by (rule hd_dropWhile)
    with d show "\<not> is_uspace (last (ustrip line))"
      by (simp add: ustrip_def last_rev)
  qed
  from l a b c show ?thesis
    unfolding stripped_def by blast
qed

lemma serial_device_line_match:
  assumes "serial_device_line serial line"
  shows "match_device_line (ustrip line) = (if list_all is_word serial then Some serial else None)"
proof -
  from assms obtain ws where ne: "serial \<noteq> []" and nb: "\<not> list_ex is_uspace serial"
    and wne: "ws \<noteq> []" and sp: "list_all is_space ws" and l: "line = serial @ ws @ ''device''"
    unfolding serial_device_line_def by blast
  from ne nb have h: "\<not> is_uspace (hd line)"
    unfolding l by (cases serial) (auto simp: list_ex_iff)
  have e: "\<not> is_uspace (last line)"
    unfolding l by (simp add: is_uspace_def is_space_def)
  from ne have "line \<noteq> []" unfolding l by simp
  then have u: "ustrip line = line" using h e by (rule ustrip_unchanged)
  show ?thesis
  proof (cases "list_all is_word serial")
    case True
    with ne wne sp l have "pattern_line serial line"
      unfolding pattern_line_def by (intro exI [of _ ws] exI [of _ "[]"]) simp
    then have "match_device_line line = Some serial" by (simp add: match_device_line_iff)
    with True u show ?thesis by simp
  next
    case False
    then obtain c where c: "c \<in> set serial" "\<not> is_word c"
      by (auto simp: list_all_iff)
    let ?d = "dropWhile is_word serial"
    from c have d: "?d \<noteq> []" by (auto simp: dropWhile_eq_Nil_conv)
    then have "hd ?d \<in> set serial" by (metis hd_in_set set_dropWhileD)
    with nb have "\<not> is_space (hd ?d)" by (auto simp: list_ex_iff is_uspace_def)
    with d have t: "takeWhile is_space (?d @ ws @ ''device'') = []"
      by (cases ?d) auto
    from c have "dropWhile is_word line = ?d @ ws @ ''device''"
      unfolding l by (rule dropWhile_append1)
    with t have "match_device_line line = None"
      by (simp add: match_device_line_def Let_def)
    with False u show ?thesis by simp
  qed
qed

text \<open>
  C7 (as amended). When \<^verbatim>\<open>adb devices\<close> succeeds and \<^verbatim>\<open>iconv\<close> returns a dump made of the
  lines \<open>ls\<close>, \<^verbatim>\<open>adb_devices\<close> returns, in the order of the lines, the serial of every line
  that the pattern accepts once the line is stripped, and nothing for any other line.
  Stripping takes the whitespace at the two ends of the line away. The pattern accepts a
  line with serial \<open>serial\<close> exactly when the line begins with \<open>serial\<close>, made of word
  characters, whitespace and \<^verbatim>\<open>device\<close>. So a line \<^verbatim>\<open><serial> device\<close> yields its serial
  when the serial is made of word characters, and nothing otherwise.
\<close>

theorem adb_devices_returns_matching_serials:
  assumes "run env (Adb [''devices'']) s = (Inr out, s1)"
    and "strip_invalid_utf8 env out s1 = (Inr (join_lines ls), s2)"
    and "\<forall>l \<in> set ls. CHR 0x0A \<notin> set l"
  shows "adb_devices env s
           = (Inr (List.map_filter (\<lambda>l. match_device_line (ustrip l)) ls), s2)
         \<and> (\<forall>line. stripped line (ustrip line))
         \<and> (\<forall>line serial. match_device_line line = Some serial \<longleftrightarrow> pattern_line serial line)
         \<and> (\<forall>line serial. serial_device_line serial line \<longrightarrow>
               match_device_line (ustrip line)
                 = (if list_all is_word serial then Some serial else None))"
  using assms
  by (simp add: adb_devices_def split_stdout_def seq_def ok_def stdout_lines_join_lines
        match_device_line_iff serial_device_line_match ustrip_stripped)

theorem adb_devices_returns_matching_serials_witness:
  "fst (run (demo_env []) (Adb [''devices'']) demo_start)
     = Inr (join_lines [''List of devices attached'', ''abc123'' @ [CHR 0x09] @ ''device'',
                        ''def456'' @ [CHR 0x09] @ ''offline'',
                        ''emulator-5554'' @ [CHR 0x09] @ ''device'', ''xyz789   device'',
                        [CHR 0x1C] @ '' R58M_42q  devices'', [], []])
   \<and> fst (adb_devices (demo_env []) demo_start) = Inr [''abc123'', ''xyz789'', ''R58M_42q'']
   \<and> serial_device_line ''abc123'' (''abc123'' @ [CHR 0x09] @ ''device'')
   \<and> match_device_line (ustrip (''abc123'' @ [CHR 0x09] @ ''device'')) = Some ''abc123''"
proof -
  let ?ls = "[''List of devices attached'', ''abc123'' @ [CHR 0x09] @ ''device'',
              ''def456'' @ [CHR 0x09] @ ''offline'',
              ''emulator-5554'' @ [CHR 0x09] @ ''device'', ''xyz789   device'',
              [CHR 0x1C] @ '' R58M_42q  devices'', [], []]"
  obtain s1 where r: "run (demo_env []) (Adb [''devices'']) demo_start = (Inr (join_lines ?ls), s1)"
    by (simp add: run_def demo_defs)
  obtain s2 where i: "strip_invalid_utf8 (demo_env []) (join_lines ?ls) s1
                        = (Inr (join_lines ?ls), s2)"
    by (simp add: strip_invalid_utf8_def run_def demo_defs split: prod.splits)
  have n: "\<forall>l \<in> set ?ls. CHR 0x0A \<notin> set l" by simp
  have "List.map_filter (\<lambda>l. match_device_line (ustrip l)) ?ls
          = [''abc123'', ''xyz789'', ''R58M_42q'']"
    by (simp add: map_filter_def ustrip_def is_uspace_def is_space_def match_device_line_def
          Let_def is_word_def startswith_def)
  moreover have b: "serial_device_line ''abc123'' (''abc123'' @ [CHR 0x09] @ ''device'')"
    unfolding serial_device_line_def
    by (intro exI [of _ "[CHR 0x09]"]) (simp add: is_uspace_def is_space_def)
  moreover have "list_all is_word ''abc123''" by (simp add: is_word_def)
  ultimately show ?thesis
    using adb_devices_returns_matching_serials [OF r i n] r by simp
qed

text \<open>
  C7 as stated fails: the dump holds the line \<^verbatim>\<open>emulator-5554 device\<close>, a line of the form
  \<^verbatim>\<open><serial> device\<close>, and its serial is not returned.
\<close>

theorem adb_devices_emulator_counterexample:
  "fst (run (demo_env []) (Adb [''devices'']) demo_start)
     = Inr (join_lines [''List of devices attached'', ''abc123'' @ [CHR 0x09] @ ''device'',
                        ''def456'' @ [CHR 0x09] @ ''offline'',
                        ''emulator-5554'' @ [CHR 0x09] @ ''device'', ''xyz789   device'',
                        [CHR 0x1C] @ '' R58M_42q  devices'', [], []])
   \<and> serial_device_line ''emulator-5554'' (''emulator-5554'' @ [CHR 0x09] @ ''device'')
   \<and> fst (adb_devices (demo_env []) demo_start) = Inr [''abc123'', ''xyz789'', ''R58M_42q'']"
proof -
  have a: "fst (run (demo_env []) (Adb [''devices'']) demo_start)
     = Inr (join_lines [''List of devices attached'', ''abc123'' @ [CHR 0x09] @ ''device'',
                        ''def456'' @ [CHR 0x09] @ ''offline'',
                        ''emulator-5554'' @ [CHR 0x09] @ ''device'', ''xyz789   device'',
                        [CHR 0x1C] @ '' R58M_42q  devices'', [], []])"
    by (simp add: run_def demo_defs)
  have b: "serial_device_line ''emulator-5554'' (''emulator-5554'' @ [CHR 0x09] @ ''device'')"
    unfolding serial_device_line_def
    by (intro exI [of _ "[CHR 0x09]"]) (simp add: is_uspace_def is_space_def)
  have c: "fst (adb_devices (demo_env []) demo_start) = Inr [''abc123'', ''xyz789'', ''R58M_42q'']"
    by (simp add: applied_defs monad_defs demo_defs stdout_lines_def ustrip_def is_uspace_def
          is_space_def match_device_line_def Let_def is_word_def startswith_def
          cong: seq_weak_cong try_except_weak_cong)
  from a b c show ?thesis by simp
qed

subsection \<open>CPU affinity mask\<close>

lemma py_max_eq_Max:
  assumes "xs \<noteq> []"
  shows "py_max xs = Max (set xs)"
proof -
  from assms obtain a list where c: "xs = a # list" by (cases xs) auto
  have "Max (set (a # list)) = fold max list a" by (rule Max.set_eq_fold)
  with c show ?thesis by (simp add: py_max_def)
qed

lemma build_mask_eq:
  "build_mask fl rest acc
     = rev (map (\<lambda>f. if f = py_max fl then CHR ''1'' else CHR ''0'') rest) @ acc"
  by (induction rest arbitrary: acc) auto

lemma binary_value_rev:
  "foldl (\<lambda>n c. 2 * n + (if c = CHR ''1'' then 1 else 0)) (0::int)
     (rev (map (\<lambda>f. if f = m then CHR ''1'' else CHR ''0'') fl))
   = horner_sum of_bool 2 (map (\<lambda>f. f = m) fl)"
  by (induction fl) (auto simp: of_bool_def)

lemma horner_sum_nonneg: "0 \<le> (horner_sum of_bool 2 bs :: int)"
  by (induction bs) auto

lemma cpu_mask_of_nonempty:
  assumes "freq_list \<noteq> []"
  shows "cpu_mask_of maxint freq_list
           = Inr (hex_digits (nat (horner_sum of_bool 2 (map (\<lambda>f. f = Max (set freq_list)) freq_list)))
                  @ (if maxint < horner_sum of_bool 2 (map (\<lambda>f. f = Max (set freq_list)) freq_list)
                     then ''L'' else []))"
proof -
  let ?v = "horner_sum of_bool 2 (map (\<lambda>f. f = Max (set freq_list)) freq_list) :: int"
  have m: "py_max freq_list = Max (set freq_list)" using assms by (rule py_max_eq_Max)
  have ok: "list_all (\<lambda>c. c = CHR ''0'' \<or> c = CHR ''1'')
              (rev (map (\<lambda>f. if f = Max (set freq_list) then CHR ''1'' else CHR ''0'') freq_list))"
    by (auto simp: list_all_iff)
  have v: "int_base2 (build_mask freq_list freq_list []) = Inr ?v"
    using assms ok by (simp add: int_base2_def build_mask_eq m binary_value_rev)
  have nn: "0 \<le> ?v" by (rule horner_sum_nonneg)
  then have "\<not> ?v < - maxint - 1 \<or> maxint < ?v" by linarith
  with nn show ?thesis
    by (auto simp: cpu_mask_of_def v py_hex_def Let_def)
qed

text \<open>
  C6 (as amended). For every non-empty list of per-core maximum frequencies the mask is a
  number \<open>n\<close> whose bit \<open>i\<close> is set exactly when core \<open>i\<close> has the maximum frequency of
  the list, and \<^verbatim>\<open>get_cpu_mask\<close> renders it as the hexadecimal digits of \<open>n\<close> (followed by
  the suffix \<^verbatim>\<open>L\<close> of Python 2 when \<open>n\<close> exceeds \<^verbatim>\<open>sys.maxint\<close>).
\<close>

theorem get_cpu_mask_marks_fastest_cores:
  assumes "freq_list \<noteq> []"
  shows "\<exists>n. 0 \<le> n
           \<and> (\<forall>i. bit n i \<longleftrightarrow> i < length freq_list \<and> freq_list ! i = Max (set freq_list))
           \<and> cpu_mask_of maxint freq_list
               = Inr (hex_digits (nat n) @ (if maxint < n then ''L'' else []))"
proof (intro exI conjI)
  let ?v = "horner_sum of_bool 2 (map (\<lambda>f. f = Max (set freq_list)) freq_list) :: int"
  show "0 \<le> ?v" by (rule horner_sum_nonneg)
  show "\<forall>i. bit ?v i \<longleftrightarrow> i < length freq_list \<and> freq_list ! i = Max (set freq_list)"
    by (auto simp: bit_horner_sum_bit_iff)
  show "cpu_mask_of maxint freq_list = Inr (hex_digits (nat ?v) @ (if maxint < ?v then ''L'' else []))"
    using assms by (rule cpu_mask_of_nonempty)
qed

theorem get_cpu_mask_marks_fastest_cores_witness:
  "[100, 200, 200, 100] \<noteq> ([] :: int list)
   \<and> cpu_mask_of (2 ^ 63 - 1) [100, 200, 200, 100] = Inr ''6''
   \<and> (\<exists>n. 0 \<le> n
         \<and> (\<forall>i. bit n i \<longleftrightarrow> i < length [100, 200, 200, 100 :: int]
                   \<and> [100, 200, 200, 100] ! i = Max (set [100, 200, 200, 100 :: int]))
         \<and> cpu_mask_of (2 ^ 63 - 1) [100, 200, 200, 100]
             = Inr (hex_digits (nat n) @ (if 2 ^ 63 - 1 < n then ''L'' else [])))"
proof -
  have "cpu_mask_of (2 ^ 63 - 1) [100, 200, 200, 100] = Inr ''6''"
    by (simp add: cpu_mask_of_def py_max_def int_base2_def py_hex_def hex_digits_def
          show_digits.simps digit_char_def)
  with get_cpu_mask_marks_fastest_cores [of "[100, 200, 200, 100]" "2 ^ 63 - 1"]
  show ?thesis by simp
qed

text \<open>C6 as stated fails on the empty list: no mask is rendered, ValueError is raised.\<close>

theorem get_cpu_mask_empty_counterexample:
  "cpu_mask_of (2 ^ 63 - 1) [] = Inl ValueError"
  by (simp add: cpu_mask_of_def int_base2_def)

text \<open>
  C10. When the read of the first core exits with status 1 or prints no integer, the
  frequency list is empty and \<^verbatim>\<open>get_cpu_mask\<close> raises ValueError instead of returning a
  mask: the conversion of the empty mask string fails.
\<close>

theorem get_cpu_mask_without_cores_raises:
  assumes "run env (Adb [''-s'', sn, ''shell'',
                         ''cat /sys/devices/system/cpu/cpu0/cpufreq/cpuinfo_max_freq'']) s = (r, s')"
    and "(\<exists>err. r = Inl (ErrorReturnCode 1 err)) \<or> (\<exists>out. r = Inr out \<and> py_int out = None)"
  shows "get_cpu_mask env sn s = Some (Inl ValueError, s')
         \<and> cpu_mask_of (sys_maxint env) [] = Inl ValueError"
proof -
  have c: "show_nat 0 = ''0''"
    by (simp add: show_nat_def show_digits.simps digit_char_def)
  have e: "cpu_mask_of (sys_maxint env) [] = Inl ValueError"
    by (simp add: cpu_mask_of_def int_base2_def)
  have "read_freq_list env sn 0 [] s = Some (Inr [], s')"
    using assms by (subst read_freq_list.simps) (auto simp: c is_ErrorReturnCode_1_def)
  then show ?thesis by (simp add: get_cpu_mask_def e)
qed

theorem get_cpu_mask_without_cores_raises_witness:
  "fst (run no_cores_env (Adb [''-s'', ''abc123'', ''shell'',
          ''cat /sys/devices/system/cpu/cpu0/cpufreq/cpuinfo_max_freq'']) \<lparr>world = (), trace = []\<rparr>)
     = Inl (ErrorReturnCode 1 ''cat: No such file or directory'')
   \<and> fst (the (get_cpu_mask no_cores_env ''abc123'' \<lparr>world = (), trace = []\<rparr>)) = Inl ValueError"
proof -
  let ?c = "Adb [''-s'', ''abc123'', ''shell'',
          ''cat /sys/devices/system/cpu/cpu0/cpufreq/cpuinfo_max_freq'']"
  let ?s = "\<lparr>world = (), trace = []\<rparr>"
  have r: "run no_cores_env ?c ?s
             = (Inl (ErrorReturnCode 1 ''cat: No such file or directory''),
                \<lparr>world = (), trace = [?c]\<rparr>)"
    by (simp add: run_def no_cores_env_def failing_env_def failure_of_def)
  from get_cpu_mask_without_cores_raises [OF r] r show ?thesis by simp
qed

subsection \<open>Fetching artifacts\<close>

lemma file_checksum_Inr:
  "file_checksum env f s = (Inr c, s') \<Longrightarrow> s' = s \<and> md5_hexdigest env (world s) f = Some c"
  by (auto simp: file_checksum_def monad_defs split: option.splits)

lemma download_file_verified:
  assumes "download_file env configs filename dir s = (Inr path, s')"
  shows "\<exists>checksum. configs (filename @ ''_md5_checksum'') = Some checksum
           \<and> md5_hexdigest env (world s') path = Some checksum"
  using assms
  by (auto simp: download_file_def Let_def seq_def ok_def raise_def say_def dict_get_def
        split: prod.splits sum.splits option.splits if_splits dest!: file_checksum_Inr)

lemma get_model_file_verified:
  assumes "get_model_file env file_path checksum dir pl0 s = (Inr pl, s')"
  shows "\<exists>path. pl = pl0 @ [path] \<and> md5_hexdigest env (world s') path = Some checksum"
  using assms
  by (auto simp: get_model_file_def Let_def seq_def ok_def raise_def say_def aibench_check_def
        split: prod.splits sum.splits option.splits if_splits dest!: file_checksum_Inr)

text \<open>
  C8. A path that \<^verbatim>\<open>download_file\<close> returns, and a path that \<^verbatim>\<open>get_model_file\<close> appends
  to the push list, has the expected checksum as its digest in the world the function
  returns in; on every other way out the function has failed.
\<close>

theorem fetched_artifact_is_verified:
  "(download_file env configs filename dir s = (Inr path, s')
      \<longrightarrow> (\<exists>checksum. configs (filename @ ''_md5_checksum'') = Some checksum
             \<and> md5_hexdigest env (world s') path = Some checksum))
   \<and> (get_model_file env file_path expected dir2 pl0 s2 = (Inr pl, s2')
      \<longrightarrow> (\<exists>local_path. pl = pl0 @ [local_path]
             \<and> md5_hexdigest env (world s2') local_path = Some expected))"
  using download_file_verified get_model_file_verified by blast


theorem fetched_artifact_is_verified_witness:
  "download_file (demo_env [(''out/imagenet_less.zip'', ''0123abcd'')])
      (map_of [(''imagenet_less.zip'', ''http://example.org/imagenet_less.zip''),
               (''imagenet_less.zip_md5_checksum'', ''0123abcd'')])
      ''imagenet_less.zip'' ''out'' demo_start = (Inr ''out/imagenet_less.zip'', demo_start)
   \<and> get_model_file (demo_env [(''models/m.pb'', ''0123abcd'')]) ''models/m.pb'' ''0123abcd''
        ''out'' [] demo_start = (Inr [''models/m.pb''], demo_start)
   \<and> md5_hexdigest (demo_env [(''out/imagenet_less.zip'', ''0123abcd'')]) (world demo_start)
        ''out/imagenet_less.zip'' = Some ''0123abcd''
   \<and> md5_hexdigest (demo_env [(''models/m.pb'', ''0123abcd'')]) (world demo_start)
        ''models/m.pb'' = Some ''0123abcd''"
proof -
  let ?E1 = "demo_env [(''out/imagenet_less.zip'', ''0123abcd'')]"
  let ?E2 = "demo_env [(''models/m.pb'', ''0123abcd'')]"
  let ?configs = "map_of [(''imagenet_less.zip'', ''http://example.org/imagenet_less.zip''),
               (''imagenet_less.zip_md5_checksum'', ''0123abcd'')]"
  have d: "download_file ?E1 ?configs ''imagenet_less.zip'' ''out'' demo_start
             = (Inr ''out/imagenet_less.zip'', demo_start)"
    by (simp add: applied_defs monad_defs demo_env_sel Let_def
          cong: seq_weak_cong try_except_weak_cong)
  have g: "get_model_file ?E2 ''models/m.pb'' ''0123abcd'' ''out'' [] demo_start
             = (Inr [''models/m.pb''], demo_start)"
    by (simp add: applied_defs monad_defs demo_env_sel Let_def startswith_def
          cong: seq_weak_cong try_except_weak_cong)
  from fetched_artifact_is_verified [THEN conjunct1, rule_format, OF d]
  have "md5_hexdigest ?E1 (world demo_start) ''out/imagenet_less.zip'' = Some ''0123abcd''"
    by simp
  moreover
  from fetched_artifact_is_verified [THEN conjunct2, rule_format, OF g]
  have "md5_hexdigest ?E2 (world demo_start) ''models/m.pb'' = Some ''0123abcd''"
    by simp
  ultimately show ?thesis using d g by simp
qed

subsection \<open>Pushing a file\<close>

lemma pushes_simps [simp]:
  "pushes (xs @ ys) = pushes xs @ pushes ys"
  "pushes [] = []"
  "pushes (x # xs) = (if is_push x then x # pushes xs else pushes xs)"
  by (simp_all add: pushes_def)

lemma is_push_simps [simp]:
  "is_push (Print msg) = False"
  "is_push (Adb [a, b, c, d, e]) = (c = ''push'')"
  by (simp_all add: is_push_def)









subsection \<open>The jobs a run invokes\<close>

lemma jobs_run_append [simp]: "jobs_run (xs @ ys) = jobs_run xs @ jobs_run ys"
  by (simp add: jobs_run_def)

lemma jobs_run_Nil [simp]: "jobs_run [] = []"
  by (simp add: jobs_run_def)

lemma jobs_run_single [simp]: "jobs_run [c] = job_of c"
  by (simp add: jobs_run_def)

lemma quietD: "quiet m \<Longrightarrow> m s = (r, s') \<Longrightarrow> jobs_run (trace s') = jobs_run (trace s)"
  unfolding quiet_def by (metis snd_conv)

lemma quiet_ok [intro!]: "quiet (ok x)"
  by (simp add: quiet_def ok_def)

lemma quiet_raise [intro!]: "quiet (raise e)"
  by (simp add: quiet_def raise_def)

lemma quiet_gets [intro!]: "quiet (gets f)"
  by (simp add: quiet_def gets_def)

lemma quiet_say [intro!]: "quiet (say msg)"
  by (simp add: quiet_def say_def)

lemma quiet_run: "job_of c = [] \<Longrightarrow> quiet (run env c)"
  by (simp add: quiet_def run_def split: prod.splits reply.splits)

lemma quiet_run_Adb [intro!]: "quiet (run env (Adb args))"
  by (simp add: quiet_run)

lemma quiet_seq [intro!]: "quiet m \<Longrightarrow> (\<And>x. quiet (f x)) \<Longrightarrow> quiet (seq m f)"
  unfolding quiet_def seq_def
  by (auto split: prod.splits sum.splits) (metis snd_conv)+

lemma quiet_try_except [intro!]:
  "quiet m \<Longrightarrow> (\<And>e. quiet (h e)) \<Longrightarrow> (\<And>x. quiet (f x)) \<Longrightarrow> quiet (try_except m handled h f)"
  unfolding quiet_def try_except_def
  by (auto split: prod.splits sum.splits) (metis snd_conv)+

lemma quiet_for_each [intro!]: "(\<And>x. quiet (f x)) \<Longrightarrow> quiet (for_each f xs)"
  by (induction xs) auto

lemma quiet_if [intro!]: "(c \<Longrightarrow> quiet a) \<Longrightarrow> (\<not> c \<Longrightarrow> quiet b) \<Longrightarrow> quiet (if c then a else b)"
  by simp

lemma quiet_dict_get [intro!]: "quiet (dict_get d k)"
  by (auto simp: dict_get_def split: option.splits)

lemma quiet_file_checksum [intro!]: "quiet (file_checksum env f)"
  by (auto simp: file_checksum_def split: option.splits)

lemma quiet_of_result [intro!]: "quiet (of_result r)"
  by (simp add: quiet_def of_result_def)

lemma quiet_adb_push_file [intro!]: "quiet (adb_push_file env src dst sn)"
  unfolding adb_push_file_def Let_def by (intro quiet_seq quiet_if quiet_try_except) auto

lemma quiet_adb_push [intro!]: "quiet (adb_push env src dst sn)"
  unfolding adb_push_def by auto

lemma quiet_prepare_device_env [intro!]: "quiet (prepare_device_env env sn a d ex)"
  unfolding prepare_device_env_def Let_def by (intro quiet_seq quiet_if) auto

lemma quiet_push_all_models [intro!]: "quiet (push_all_models env sn d pl)"
  unfolding push_all_models_def by auto

lemma quiet_push_precision_files [intro!]: "quiet (push_precision_files env sn d i)"
  unfolding push_precision_files_def Let_def by (intro quiet_seq quiet_if) auto

lemma quiet_lock_setup: "quiet (lock_setup env p ts)"
  unfolding lock_setup_def by (intro quiet_seq quiet_if quiet_try_except quiet_run) auto

lemma quiet_split_stdout [intro!]: "quiet (split_stdout env out)"
  unfolding split_stdout_def strip_invalid_utf8_def by (intro quiet_seq quiet_run) auto

lemma quiet_adb_run_prologue: "quiet (adb_run_prologue env p)"
  unfolding adb_run_prologue_def adb_getprop_by_serialno_def by auto

lemma quiet_adb_pull: "quiet (adb_pull env src dst sn)"
  unfolding adb_pull_def stderr_of_def by (auto split: exc.splits)


lemma run_Adb_jobs:
  "run env (Adb args) s = (r, s') \<Longrightarrow> jobs_run (trace s') = jobs_run (trace s)"
  by (rule quietD [OF quiet_run_Adb])

lemma read_freq_list_jobs:
  assumes "read_freq_list env0 sn0 cpu_id0 fl0 s0 = Some y0"
  shows "jobs_run (trace (snd y0)) = jobs_run (trace s0)"
proof (rule read_freq_list.raw_induct
    [where P = "\<lambda>env sn cpu_id fl s y. jobs_run (trace (snd y)) = jobs_run (trace s)",
      OF _ assms])
  fix rec :: "'a env \<Rightarrow> string \<Rightarrow> nat \<Rightarrow> int list \<Rightarrow> 'a st
               \<Rightarrow> ((exc + int list) \<times> 'a st) option"
    and env sn cpu_id fl s y
  assume IH: "\<And>env sn cpu_id fl s y. rec env sn cpu_id fl s = Some y
                \<Longrightarrow> jobs_run (trace (snd y)) = jobs_run (trace s)"
  let ?c = "Adb [''-s'', sn, ''shell'', ''cat /sys/devices/system/cpu/cpu'' @ show_nat cpu_id
                   @ ''/cpufreq/cpuinfo_max_freq'']"
  assume body: "(case run env ?c s of
        (Inl e, s') \<Rightarrow>
          if is_ErrorReturnCode_1 e then Some (Inr fl, s') else Some (Inl e, s')
      | (Inr out, s') \<Rightarrow>
          (case py_int out of
             None \<Rightarrow> Some (Inr fl, s')
           | Some freq \<Rightarrow> rec env sn (cpu_id + 1) (fl @ [freq]) s')) = Some y"
  obtain r1 s1 where r1: "run env ?c s = (r1, s1)" by (cases "run env ?c s")
  have j1: "jobs_run (trace s1) = jobs_run (trace s)" by (rule run_Adb_jobs [OF r1])
  show "jobs_run (trace (snd y)) = jobs_run (trace s)"
  proof (cases r1)
    case (Inl e)
    with body r1 have "snd y = s1" by (auto split: if_splits)
    with j1 show ?thesis by simp
  next
    case (Inr out)
    show ?thesis
    proof (cases "py_int out")
      case None
      with Inr body r1 have "snd y = s1" by auto
      with j1 show ?thesis by simp
    next
      case (Some freq)
      with Inr body r1 have "rec env sn (cpu_id + 1) (fl @ [freq]) s1 = Some y" by simp
      from IH [OF this] j1 show ?thesis by simp
    qed
  qed
qed

lemma get_cpu_mask_jobs:
  "get_cpu_mask env sn s = Some (r, s') \<Longrightarrow> jobs_run (trace s') = jobs_run (trace s)"
  by (auto simp: get_cpu_mask_def split: option.splits prod.splits sum.splits
        dest!: read_freq_list_jobs)

lemma run_batch_jobs:
  "run_batch env p cmd t0 el i s = (r, s') \<Longrightarrow> i \<le> length (benchmark_list p) \<Longrightarrow>
   \<exists>k. i \<le> k \<and> k \<le> length (benchmark_list p)
       \<and> jobs_run (trace s') = jobs_run (trace s) @ take (k - i) (drop i (benchmark_list p))
       \<and> (\<forall>i'. r = Inr i' \<longrightarrow> i' = k)
       \<and> (el < max_time_per_lock p \<and> i < length (benchmark_list p) \<longrightarrow> i < k)"
proof (induction env p cmd t0 el i s arbitrary: r s' rule: run_batch.induct)
  case (1 env p cmd t0 el i s)
  show ?case
  proof (cases "el < max_time_per_lock p \<and> i < length (benchmark_list p)")
    case False
    with 1(2) have "r = Inr i" "s' = s"
      by (subst (asm) run_batch.simps, simp)+
    with False 1(3) show ?thesis by (intro exI [of _ i]) auto
  next
    case True
    let ?c = "AdbBenchmark (serialno p) cmd (run_interval p) (num_threads p)
                (benchmark_option p) (benchmark_list p ! i)"
    obtain r1 s1 where r1: "run env ?c s = (r1, s1)" by (cases "run env ?c s")
    have tr: "jobs_run (trace s1) = jobs_run (trace s) @ [benchmark_list p ! i]"
      using r1 by (auto simp: run_def split: prod.splits reply.splits)
    have tk: "take (Suc k - i) (drop i (benchmark_list p))
                = benchmark_list p ! i # take (k - i) (drop (Suc i) (benchmark_list p))"
      if "i \<le> k" for k
      using True that by (simp add: Suc_diff_le Cons_nth_drop_Suc [symmetric])
    show ?thesis
    proof (cases r1)
      case (Inl e)
      with 1(2) True r1 have "r = Inl e" "s' = s1"
        by (subst (asm) run_batch.simps, simp add: Let_def)+
      with tr True tk [of i] show ?thesis
        by (intro exI [of _ "Suc i"]) auto
    next
      case (Inr out)
      with 1(2) True r1 have rec:
        "run_batch env p cmd t0 ((time_now env (world s1) - t0) / 60) (i + 1) s1 = (r, s')"
        by (subst (asm) run_batch.simps, simp add: Let_def)
      from True have le: "i + 1 \<le> length (benchmark_list p)" by simp
      from 1(1) [OF True refl _ _ rec le] r1 Inr
      obtain k where k: "i + 1 \<le> k" "k \<le> length (benchmark_list p)"
        "jobs_run (trace s') = jobs_run (trace s1)
           @ take (k - (i + 1)) (drop (i + 1) (benchmark_list p))"
        "\<forall>i'. r = Inr i' \<longrightarrow> i' = k"
        by auto
      from k(1) obtain k' where k': "k = Suc k'" "i \<le> k'" by (cases k) auto
      show ?thesis
        using k tr tk [of k'] k' by (intro exI [of _ k]) auto
    qed
  qed
qed


lemma run_batch_no_budget:
  "\<not> el < max_time_per_lock p \<Longrightarrow> run_batch env p cmd t0 el i s = (Inr i, s)"
  by (subst run_batch.simps) simp

lemma run_quiet_jobs:
  "job_of c = [] \<Longrightarrow> run env c s = (r, s') \<Longrightarrow> jobs_run (trace s') = jobs_run (trace s)"
  by (rule quietD [OF quiet_run])

lemma locked_section_jobs:
  assumes "locked_section env p ts i s = Some (r, s')" and "i \<le> length (benchmark_list p)"
  shows "\<exists>k. i \<le> k \<and> k \<le> length (benchmark_list p)
       \<and> jobs_run (trace s') = jobs_run (trace s) @ take (k - i) (drop i (benchmark_list p))
       \<and> (\<forall>i'. r = Inr i' \<longrightarrow> i' = k \<and> (0 < max_time_per_lock p \<and> i < length (benchmark_list p) \<longrightarrow> i < i'))
       \<and> (max_time_per_lock p \<le> 0 \<longrightarrow> k = i)"
proof -
  obtain r1 s1 where a: "lock_setup env p ts s = (r1, s1)" by (cases "lock_setup env p ts s")
  have j1: "jobs_run (trace s1) = jobs_run (trace s)" by (rule quietD [OF quiet_lock_setup a])
  show ?thesis
  proof (cases r1)
    case (Inl e)
    with assms a have "r = Inl e" "s' = s1" by (auto simp: locked_section_def Let_def)
    with j1 show ?thesis by (intro exI [of _ i]) (use assms(2) in auto)
  next
    case (Inr u)
    with assms a obtain y where g: "get_cpu_mask env (serialno p) s1 = Some y"
      by (auto simp: locked_section_def Let_def split: option.splits)
    obtain r2 s2 where y: "y = (r2, s2)" by (cases y)
    have j2: "jobs_run (trace s2) = jobs_run (trace s)"
      using get_cpu_mask_jobs g y j1 by fastforce
    show ?thesis
    proof (cases r2)
      case (Inl e)
      with assms a Inr g y have "r = Inl e" "s' = s2" by (auto simp: locked_section_def Let_def)
      with j2 show ?thesis by (intro exI [of _ i]) (use assms(2) in auto)
    next
      case (Inr cpu_mask)
      let ?cmd = "benchmark_cmd (device_bin_path p) cpu_mask"
      from assms a \<open>r1 = Inr u\<close> g y Inr
      have b: "run_batch env p ?cmd (time_now env (world s)) 0 i s2 = (r, s')"
        by (auto simp: locked_section_def Let_def)
      from run_batch_jobs [OF b assms(2)] obtain k where k:
        "i \<le> k" "k \<le> length (benchmark_list p)"
        "jobs_run (trace s') = jobs_run (trace s2) @ take (k - i) (drop i (benchmark_list p))"
        "\<forall>i'. r = Inr i' \<longrightarrow> i' = k"
        "0 < max_time_per_lock p \<and> i < length (benchmark_list p) \<longrightarrow> i < k"
        by auto
      have z: "k = i" if "max_time_per_lock p \<le> 0"
      proof -
        from that have "\<not> (0::real) < max_time_per_lock p" by simp
        then have "run_batch env p ?cmd (time_now env (world s)) 0 i s2 = (Inr i, s2)"
          by (rule run_batch_no_budget)
        with b have "r = Inr i" by simp
        with k(4) show ?thesis by simp
      qed
      show ?thesis using k j2 z by (intro exI [of _ k]) auto
    qed
  qed
qed

lemma lock_hold_jobs:
  assumes "lock_hold env p ts i s = Some (r, s')" and "i \<le> length (benchmark_list p)"
  shows "\<exists>k. i \<le> k \<and> k \<le> length (benchmark_list p)
       \<and> jobs_run (trace s') = jobs_run (trace s) @ take (k - i) (drop i (benchmark_list p))
       \<and> (\<forall>i'. r = Inr i' \<longrightarrow> i' = k \<and> (0 < max_time_per_lock p \<and> i < length (benchmark_list p) \<longrightarrow> i < i'))
       \<and> (max_time_per_lock p \<le> 0 \<longrightarrow> k = i)"
proof -
  let ?acq = "FileLockAcquire (device_lock_path (serialno p)) 3600"
  let ?rel = "FileLockRelease (device_lock_path (serialno p))"
  obtain r1 s1 where a: "run env ?acq s = (r1, s1)" by (cases "run env ?acq s")
  have j1: "jobs_run (trace s1) = jobs_run (trace s)" by (rule run_quiet_jobs [OF _ a]) simp
  show ?thesis
  proof (cases r1)
    case (Inl e)
    with assms a have "r = Inl e" "s' = s1" by (auto simp: lock_hold_def)
    with j1 show ?thesis by (intro exI [of _ i]) (use assms(2) in auto)
  next
    case (Inr u)
    with assms a obtain s2 where l: "locked_section env p ts i s1 = Some (r, s2)"
      and s': "s' = snd (run env ?rel s2)"
      by (auto simp: lock_hold_def split: option.splits)
    have j3: "jobs_run (trace s') = jobs_run (trace s2)"
      unfolding s' by (rule run_quiet_jobs [of ?rel env s2 "fst (run env ?rel s2)"]) simp_all
    from locked_section_jobs [OF l assms(2)] j1 j3 show ?thesis by simp
  qed
qed

lemma take_drop_chain:
  "i \<le> j \<Longrightarrow> j \<le> k \<Longrightarrow>
   take (j - i) (drop i xs) @ take (k - j) (drop j xs) = take (k - i) (drop i xs)"
proof -
  assume a: "i \<le> j" "j \<le> k"
  then have "k - i = (j - i) + (k - j)" by simp
  then have "take (k - i) (drop i xs) = take (j - i) (drop i xs) @ take (k - j) (drop (j - i) (drop i xs))"
    by (simp only: take_add)
  with a show ?thesis by simp
qed

lemma adb_run_loop_jobs:
  assumes "adb_run_loop env0 p0 ts0 i0 s0 = Some y0"
  shows "i0 \<le> length (benchmark_list p0) \<longrightarrow>
         (\<exists>k. i0 \<le> k \<and> k \<le> length (benchmark_list p0)
            \<and> jobs_run (trace (snd y0))
                = jobs_run (trace s0) @ take (k - i0) (drop i0 (benchmark_list p0))
            \<and> (fst y0 = Inr () \<longrightarrow> k = length (benchmark_list p0))
            \<and> (max_time_per_lock p0 \<le> 0 \<longrightarrow> k = i0
                  \<and> (i0 < length (benchmark_list p0) \<longrightarrow> fst y0 \<noteq> Inr ())))"
proof (rule adb_run_loop.raw_induct
    [where P = "\<lambda>env (p :: run_params) ts i s y. i \<le> length (benchmark_list p) \<longrightarrow>
         (\<exists>k. i \<le> k \<and> k \<le> length (benchmark_list p)
            \<and> jobs_run (trace (snd y))
                = jobs_run (trace s) @ take (k - i) (drop i (benchmark_list p))
            \<and> (fst y = Inr () \<longrightarrow> k = length (benchmark_list p))
            \<and> (max_time_per_lock p \<le> 0 \<longrightarrow> k = i
                  \<and> (i < length (benchmark_list p) \<longrightarrow> fst y \<noteq> Inr ())))",
      OF _ assms])
  fix rec :: "'a env \<Rightarrow> run_params \<Rightarrow> string \<Rightarrow> nat \<Rightarrow> 'a st \<Rightarrow> ((exc + unit) \<times> 'a st) option"
    and env and p :: run_params and ts i s y
  let ?n = "length (benchmark_list p)"
  assume IH: "\<And>env (p :: run_params) ts i s y. rec env p ts i s = Some y \<Longrightarrow>
      i \<le> length (benchmark_list p) \<longrightarrow>
         (\<exists>k. i \<le> k \<and> k \<le> length (benchmark_list p)
            \<and> jobs_run (trace (snd y))
                = jobs_run (trace s) @ take (k - i) (drop i (benchmark_list p))
            \<and> (fst y = Inr () \<longrightarrow> k = length (benchmark_list p))
            \<and> (max_time_per_lock p \<le> 0 \<longrightarrow> k = i
                  \<and> (i < length (benchmark_list p) \<longrightarrow> fst y \<noteq> Inr ())))"
  assume body: "(if i < length (benchmark_list p) then
        (case lock_hold env p ts i s of
           None \<Rightarrow> None
         | Some (Inl e, s1) \<Rightarrow> Some (Inl e, s1)
         | Some (Inr i', s1) \<Rightarrow>
             (case run env (Sleep (run_interval p)) s1 of
                (Inl e, s2) \<Rightarrow> Some (Inl e, s2)
              | (Inr u, s2) \<Rightarrow> rec env p ts i' s2))
      else Some (Inr (), s)) = Some y"
  show "i \<le> ?n \<longrightarrow>
         (\<exists>k. i \<le> k \<and> k \<le> ?n
            \<and> jobs_run (trace (snd y)) = jobs_run (trace s) @ take (k - i) (drop i (benchmark_list p))
            \<and> (fst y = Inr () \<longrightarrow> k = ?n)
            \<and> (max_time_per_lock p \<le> 0 \<longrightarrow> k = i \<and> (i < ?n \<longrightarrow> fst y \<noteq> Inr ())))"
  proof
    assume le: "i \<le> ?n"
    show "\<exists>k. i \<le> k \<and> k \<le> ?n
            \<and> jobs_run (trace (snd y)) = jobs_run (trace s) @ take (k - i) (drop i (benchmark_list p))
            \<and> (fst y = Inr () \<longrightarrow> k = ?n)
            \<and> (max_time_per_lock p \<le> 0 \<longrightarrow> k = i \<and> (i < ?n \<longrightarrow> fst y \<noteq> Inr ()))"
    proof (cases "i < ?n")
      case False
      with body le have "y = (Inr (), s)" "i = ?n" by auto
      then show ?thesis by (intro exI [of _ i]) auto
    next
      case True
      with body obtain r1 s1 where h: "lock_hold env p ts i s = Some (r1, s1)"
        by (auto split: option.splits)
      from lock_hold_jobs [OF h le] obtain k1 where k1:
        "i \<le> k1" "k1 \<le> ?n"
        "jobs_run (trace s1) = jobs_run (trace s) @ take (k1 - i) (drop i (benchmark_list p))"
        "\<forall>i'. r1 = Inr i' \<longrightarrow> i' = k1"
        "max_time_per_lock p \<le> 0 \<longrightarrow> k1 = i"
        by auto
      show ?thesis
      proof (cases r1)
        case (Inl e)
        with body True h have "y = (Inl e, s1)" by simp
        with k1 show ?thesis by (intro exI [of _ k1]) auto
      next
        case (Inr i')
        with k1(4) have i': "i' = k1" by simp
        obtain r2 s2 where sl: "run env (Sleep (run_interval p)) s1 = (r2, s2)"
          by (cases "run env (Sleep (run_interval p)) s1")
        have j2: "jobs_run (trace s2) = jobs_run (trace s1)"
          by (rule run_quiet_jobs [OF _ sl]) simp
        show ?thesis
        proof (cases r2)
          case (Inl e)
          with body True h Inr sl have "y = (Inl e, s2)" by simp
          with k1 j2 show ?thesis by (intro exI [of _ k1]) auto
        next
          case (Inr u)
          with body True h \<open>r1 = Inr i'\<close> sl have "rec env p ts i' s2 = Some y" by simp
          from IH [OF this] i' k1(2) obtain k2 where k2:
            "k1 \<le> k2" "k2 \<le> ?n"
            "jobs_run (trace (snd y))
               = jobs_run (trace s2) @ take (k2 - k1) (drop k1 (benchmark_list p))"
            "fst y = Inr () \<longrightarrow> k2 = ?n"
            "max_time_per_lock p \<le> 0 \<longrightarrow> k2 = k1 \<and> (k1 < ?n \<longrightarrow> fst y \<noteq> Inr ())"
            by auto
          have "jobs_run (trace (snd y))
                  = jobs_run (trace s) @ take (k2 - i) (drop i (benchmark_list p))"
            using k2(3) j2 k1(3) take_drop_chain [OF k1(1) k2(1), of "benchmark_list p"]
            by simp
          with k1 k2 True show ?thesis by (intro exI [of _ k2]) auto
        qed
      qed
    qed
  qed
qed


lemma lock_hold_returns:
  assumes "\<forall>s1. get_cpu_mask env (serialno p) s1 \<noteq> None"
  shows "lock_hold env p ts i s \<noteq> None"
proof -
  have ls: "locked_section env p ts i s1 \<noteq> None" for s1
    by (simp add: locked_section_def Let_def assms split: prod.splits sum.splits option.splits)
  show ?thesis
    by (simp add: lock_hold_def ls split: prod.splits sum.splits option.splits)
qed

lemma adb_run_loop_returns:
  assumes cpu: "\<forall>s1. get_cpu_mask env (serialno p) s1 \<noteq> None"
    and budget: "0 < max_time_per_lock p"
  shows "i \<le> length (benchmark_list p) \<Longrightarrow> adb_run_loop env p ts i s \<noteq> None"
proof (induction "length (benchmark_list p) - i" arbitrary: i s rule: less_induct)
  case less
  show ?case
  proof (cases "i < length (benchmark_list p)")
    case False
    then show ?thesis by (subst adb_run_loop.simps) simp
  next
    case True
    obtain r1 s1 where h: "lock_hold env p ts i s = Some (r1, s1)"
      using lock_hold_returns [OF cpu, of ts i s] by (cases "lock_hold env p ts i s") auto
    show ?thesis
    proof (cases r1)
      case (Inl e)
      with h True show ?thesis by (subst adb_run_loop.simps) simp
    next
      case (Inr i')
      from lock_hold_jobs [OF h less(2)] Inr budget True
      have i': "i < i'" "i' \<le> length (benchmark_list p)" by auto
      obtain r2 s2 where sl: "run env (Sleep (run_interval p)) s1 = (r2, s2)"
        by (cases "run env (Sleep (run_interval p)) s1")
      show ?thesis
      proof (cases r2)
        case (Inl e)
        with h True \<open>r1 = Inr i'\<close> sl show ?thesis by (subst adb_run_loop.simps) simp
      next
        case (Inr u)
        have "adb_run_loop env p ts i' s2 \<noteq> None"
          by (rule less(1)) (use i' in auto)
        with h True \<open>r1 = Inr i'\<close> sl Inr show ?thesis by (subst adb_run_loop.simps) simp
      qed
    qed
  qed
qed

lemma adb_run_jobs:
  assumes "adb_run env p s = Some (r, s')"
  shows "\<exists>k. k \<le> length (benchmark_list p)
           \<and> jobs_run (trace s') = jobs_run (trace s) @ take k (benchmark_list p)
           \<and> ((\<exists>path. r = Inr path) \<longrightarrow> k = length (benchmark_list p))
           \<and> (max_time_per_lock p \<le> 0 \<longrightarrow> k = 0
                 \<and> (benchmark_list p \<noteq> [] \<longrightarrow> (\<forall>path. r \<noteq> Inr path)))"
proof -
  obtain r1 s1 where a: "adb_run_prologue env p s = (r1, s1)"
    by (cases "adb_run_prologue env p s")
  have j1: "jobs_run (trace s1) = jobs_run (trace s)"
    by (rule quietD [OF quiet_adb_run_prologue a])
  show ?thesis
  proof (cases r1)
    case (Inl e)
    with assms a have "r = Inl e" "s' = s1" by (auto simp: adb_run_def)
    with j1 show ?thesis by (intro exI [of _ 0]) auto
  next
    case (Inr names)
    obtain product_model target_soc where n: "names = (product_model, target_soc)"
      by (cases names)
    from assms a Inr n obtain y where l: "adb_run_loop env p target_soc 0 s1 = Some y"
      by (auto simp: adb_run_def split: option.splits)
    from adb_run_loop_jobs [OF l] obtain k where k:
      "k \<le> length (benchmark_list p)"
      "jobs_run (trace (snd y)) = jobs_run (trace s1) @ take k (benchmark_list p)"
      "fst y = Inr () \<longrightarrow> k = length (benchmark_list p)"
      "max_time_per_lock p \<le> 0 \<longrightarrow> k = 0 \<and> (0 < length (benchmark_list p) \<longrightarrow> fst y \<noteq> Inr ())"
      by auto
    obtain r2 s2 where y: "y = (r2, s2)" by (cases y)
    show ?thesis
    proof (cases r2)
      case (Inl e)
      with assms a \<open>r1 = Inr names\<close> n l y have "r = Inl e" "s' = s2"
        by (auto simp: adb_run_def)
      with k y j1 show ?thesis by (intro exI [of _ k]) auto
    next
      case (Inr u)
      let ?pull = "adb_pull env (device_bin_path p @ ''/result.txt'')
                     (result_path p product_model target_soc) (serialno p)"
      obtain r3 s3 where pl: "?pull s2 = (r3, s3)" by (cases "?pull s2")
      have j3: "jobs_run (trace s3) = jobs_run (trace s2)"
        by (rule quietD [OF quiet_adb_pull pl])
      from assms a \<open>r1 = Inr names\<close> n l y Inr pl have "s' = s3"
        by (auto simp: adb_run_def Let_def split: sum.splits)
      with k y j1 j3 Inr show ?thesis by (intro exI [of _ k]) auto
    qed
  qed
qed

lemma adb_run_returns:
  assumes "\<forall>s1. get_cpu_mask env (serialno p) s1 \<noteq> None" and "0 < max_time_per_lock p"
  shows "adb_run env p s \<noteq> None"
proof -
  have lp: "adb_run_loop env p ts 0 s1 \<noteq> None" for ts s1
    by (rule adb_run_loop_returns [OF assms]) simp
  show ?thesis
    by (simp add: adb_run_def Let_def lp split: prod.splits sum.splits option.splits)
qed


subsection \<open>Runs of the scheduler\<close>

lemma demo_get_cpu_mask:
  "get_cpu_mask (demo_env files) ''abc123'' s =
     Some (Inr ''6'',
           \<lparr>world = world s,
            trace = trace s @ map (\<lambda>n. Adb [''-s'', ''abc123'', ''shell'',
                       ''cat /sys/devices/system/cpu/cpu'' @ n @ ''/cpufreq/cpuinfo_max_freq''])
                     [''0'', ''1'', ''2'', ''3'', ''4'']\<rparr>)"
  apply (simp add: get_cpu_mask_def)
  apply (subst read_freq_list.simps, simp add: monad_defs demo_defs string_defs)+
  apply (simp add: cpu_mask_of_def py_max_def int_base2_def py_hex_def hex_digits_def
           show_digits.simps digit_char_def demo_defs)
  done

lemma demo_prologue:
  "adb_run_prologue (demo_env []) (demo_params b js) demo_start
     = (Inr (''MI 8'', ''sdm845''),
        \<lparr>world = (0, []),
         trace = [Adb [''-s'', ''abc123'', ''shell'', ''rm -rf /data/local/tmp/aibench/result.txt''],
                  Adb [''-s'', ''abc123'', ''shell'', ''getprop''],
                  Iconv ''[ro.product.model]: [MI 8]\<newline>[ro.board.platform]: [sdm845]\<newline>''
                    [''-c'', ''-t'', ''UTF-8'']]\<rparr>)"
  by (simp add: applied_defs monad_defs demo_defs string_defs Let_def stdout_lines_def
        match_prop_line_def
        cong: seq_weak_cong try_except_weak_cong)

text \<open>
  C9. For a positive \<^verbatim>\<open>max_time_per_lock\<close>: when \<^verbatim>\<open>adb_run\<close> returns its result path, the
  benchmark invocations of the run are exactly the job list, in its order, each job
  once; when it raises, they are an initial part of the list; and \<^verbatim>\<open>adb_run\<close> does
  return or raise, provided every reading of the cores ends.
\<close>

theorem adb_run_invokes_jobs_in_order:
  assumes "0 < max_time_per_lock p"
  shows "(\<forall>path s'. adb_run env p s = Some (Inr path, s')
            \<longrightarrow> jobs_run (trace s') = jobs_run (trace s) @ benchmark_list p)
       \<and> (\<forall>e s'. adb_run env p s = Some (Inl e, s')
            \<longrightarrow> (\<exists>k \<le> length (benchmark_list p).
                   jobs_run (trace s') = jobs_run (trace s) @ take k (benchmark_list p)))
       \<and> ((\<forall>s1. get_cpu_mask env (serialno p) s1 \<noteq> None) \<longrightarrow> adb_run env p s \<noteq> None)"
proof (intro conjI allI impI)
  fix path s'
  assume "adb_run env p s = Some (Inr path, s')"
  from adb_run_jobs [OF this]
  show "jobs_run (trace s') = jobs_run (trace s) @ benchmark_list p" by auto
next
  fix e s'
  assume "adb_run env p s = Some (Inl e, s')"
  from adb_run_jobs [OF this]
  show "\<exists>k \<le> length (benchmark_list p).
          jobs_run (trace s') = jobs_run (trace s) @ take k (benchmark_list p)" by auto
next
  assume "\<forall>s1. get_cpu_mask env (serialno p) s1 \<noteq> None"
  then show "adb_run env p s \<noteq> None" using assms by (rule adb_run_returns)
qed


theorem adb_run_invokes_jobs_in_order_witness:
  "0 < max_time_per_lock (demo_params 60 [demo_job 1, demo_job 2, demo_job 3])
   \<and> fst (the (adb_run (demo_env []) (demo_params 60 [demo_job 1, demo_job 2, demo_job 3])
               demo_start)) = Inr ''output/MI 8_sdm845_arm64-v8a_result.txt''
   \<and> jobs_run (trace (snd (the (adb_run (demo_env [])
               (demo_params 60 [demo_job 1, demo_job 2, demo_job 3]) demo_start))))
       = [demo_job 1, demo_job 2, demo_job 3]
   \<and> lock_acquisitions (trace (snd (the (adb_run (demo_env [])
               (demo_params 60 [demo_job 1, demo_job 2, demo_job 3]) demo_start)))) = 2"
proof -
  let ?P = "demo_params 60 [demo_job 1, demo_job 2, demo_job 3]"
  have "\<exists>s'. adb_run (demo_env []) ?P demo_start
               = Some (Inr ''output/MI 8_sdm845_arm64-v8a_result.txt'', s')
             \<and> lock_acquisitions (trace s') = 2"
    apply (simp add: adb_run_def demo_prologue)
    apply (subst adb_run_loop.simps)
    apply (simp add: lock_hold_def locked_section_def demo_get_cpu_mask applied_defs monad_defs
             demo_defs string_defs Let_def device_lock_path_def benchmark_cmd_def
             cong: seq_weak_cong try_except_weak_cong)
    apply (subst run_batch.simps, simp add: monad_defs demo_defs Let_def)+
    apply (subst adb_run_loop.simps)
    apply (simp add: lock_hold_def locked_section_def demo_get_cpu_mask applied_defs monad_defs
             demo_defs string_defs Let_def device_lock_path_def benchmark_cmd_def
             cong: seq_weak_cong try_except_weak_cong)
    apply (subst run_batch.simps, simp add: monad_defs demo_defs Let_def)+
    apply (subst adb_run_loop.simps)
    apply (simp add: applied_defs monad_defs demo_defs string_defs Let_def result_path_def
             lock_acquisitions_def
             cong: seq_weak_cong try_except_weak_cong)
    done
  then obtain s' where r: "adb_run (demo_env []) ?P demo_start
               = Some (Inr ''output/MI 8_sdm845_arm64-v8a_result.txt'', s')"
    and l: "lock_acquisitions (trace s') = 2" by blast
  have b: "0 < max_time_per_lock ?P" by (simp add: demo_defs)
  from adb_run_invokes_jobs_in_order [OF b, of "demo_env []" demo_start] r
  have "jobs_run (trace s') = jobs_run (trace demo_start) @ benchmark_list ?P" by blast
  with r l b show ?thesis by (simp add: demo_defs)
qed


text \<open>
  C1 fails on the code at \<^verbatim>\<open>max_time_per_lock = 0\<close>: with no positive budget and a job
  list that is not empty, a lock hold invokes no job and leaves the index where it was,
  and \<^verbatim>\<open>adb_run\<close> invokes no job and never returns its result path.
\<close>

theorem adb_run_without_budget_runs_nothing:
  assumes "max_time_per_lock p \<le> 0" and "benchmark_list p \<noteq> []"
  shows "(\<forall>i r s'. i < length (benchmark_list p) \<longrightarrow> lock_hold env p ts i s = Some (r, s')
            \<longrightarrow> jobs_run (trace s') = jobs_run (trace s) \<and> (\<forall>i'. r = Inr i' \<longrightarrow> i' = i))
       \<and> (\<forall>r s'. adb_run env p s = Some (r, s')
            \<longrightarrow> jobs_run (trace s') = jobs_run (trace s) \<and> (\<forall>path. r \<noteq> Inr path))"
proof -
  have a: "jobs_run (trace s') = jobs_run (trace s) \<and> (\<forall>i'. r = Inr i' \<longrightarrow> i' = i)"
    if i: "i < length (benchmark_list p)" and h: "lock_hold env p ts i s = Some (r, s')"
    for i r s'
  proof -
    from i have "i \<le> length (benchmark_list p)" by simp
    from lock_hold_jobs [OF h this] assms(1) show ?thesis by auto
  qed
  have b: "jobs_run (trace s') = jobs_run (trace s) \<and> (\<forall>path. r \<noteq> Inr path)"
    if "adb_run env p s = Some (r, s')" for r s'
    using adb_run_jobs [OF that] assms by auto
  from a b show ?thesis by blast
qed

theorem adb_run_without_budget_runs_nothing_witness:
  "max_time_per_lock (demo_params 0 [demo_job 1]) \<le> 0
   \<and> benchmark_list (demo_params 0 [demo_job 1]) \<noteq> []
   \<and> fst (the (lock_hold (demo_env []) (demo_params 0 [demo_job 1]) ''sdm845'' 0 demo_start))
       = Inr 0
   \<and> jobs_run (trace (snd (the (lock_hold (demo_env []) (demo_params 0 [demo_job 1]) ''sdm845'' 0
                                  demo_start)))) = []"
proof -
  let ?P = "demo_params 0 [demo_job 1]"
  have "\<exists>s'. lock_hold (demo_env []) ?P ''sdm845'' 0 demo_start = Some (Inr 0, s')"
    apply (simp add: lock_hold_def locked_section_def demo_get_cpu_mask applied_defs monad_defs
             demo_defs string_defs Let_def device_lock_path_def benchmark_cmd_def
             cong: seq_weak_cong try_except_weak_cong)
    apply (subst run_batch.simps, simp add: monad_defs demo_defs Let_def)
    done
  then obtain s' where h: "lock_hold (demo_env []) ?P ''sdm845'' 0 demo_start = Some (Inr 0, s')"
    by blast
  have b: "max_time_per_lock ?P \<le> 0" and n: "benchmark_list ?P \<noteq> []"
    by (simp_all add: demo_defs)
  from adb_run_without_budget_runs_nothing [OF b n, of "demo_env []" "''sdm845''" demo_start] h
  have "jobs_run (trace s') = jobs_run (trace demo_start)" by (simp add: demo_defs)
  with h b n show ?thesis by (simp add: demo_defs)
qed

subsection \<open>An empty job list\<close>

lemma lock_acquisitions_simps [simp]:
  "lock_acquisitions (xs @ ys) = lock_acquisitions xs + lock_acquisitions ys"
  "lock_acquisitions [] = 0"
  "lock_acquisitions (x # xs) = (if is_lock_acquire x then 1 else 0) + lock_acquisitions xs"
  by (simp_all add: lock_acquisitions_def)

lemma lockless_ok [intro!]: "lockless (ok x)"
  by (simp add: lockless_def ok_def)

lemma lockless_raise [intro!]: "lockless (raise e)"
  by (simp add: lockless_def raise_def)

lemma lockless_run: "\<not> is_lock_acquire c \<Longrightarrow> lockless (run env c)"
  by (simp add: lockless_def run_def split: prod.splits reply.splits)

lemma lockless_seq [intro!]: "lockless m \<Longrightarrow> (\<And>x. lockless (f x)) \<Longrightarrow> lockless (seq m f)"
  unfolding lockless_def seq_def
  by (auto split: prod.splits sum.splits) (metis snd_conv)+

lemma lockless_dict_get [intro!]: "lockless (dict_get d k)"
  by (auto simp: dict_get_def split: option.splits)

lemma lockless_prologue:
  "lock_acquisitions (trace (snd (adb_run_prologue env p s))) = lock_acquisitions (trace s)"
proof -
  have "lockless (adb_run_prologue env p)"
    unfolding adb_run_prologue_def adb_getprop_by_serialno_def split_stdout_def
      strip_invalid_utf8_def
    by (intro lockless_seq lockless_run lockless_ok lockless_dict_get) simp_all
  then show ?thesis by (simp add: lockless_def)
qed

lemma adb_run_loop_empty:
  "benchmark_list p = [] \<Longrightarrow> adb_run_loop env p ts 0 s = Some (Inr (), s)"
  by (subst adb_run_loop.simps) simp

text \<open>
  C2 (as amended). With an empty job list \<^verbatim>\<open>adb_run\<close> runs its first statements (the
  removal of the old result, the property dump), pulls the result file and, when the pull
  returns, returns the local path: it acquires no lock, stages nothing and invokes no
  benchmark.
\<close>

theorem adb_run_empty_list_skips_the_lock:
  assumes "benchmark_list p = []"
  shows "adb_run env p s =
           (case adb_run_prologue env p s of
              (Inl e, s1) \<Rightarrow> Some (Inl e, s1)
            | (Inr (product_model, target_soc), s1) \<Rightarrow>
                (case adb_pull env (device_bin_path p @ ''/result.txt'')
                        (result_path p product_model target_soc) (serialno p) s1 of
                   (Inl e, s2) \<Rightarrow> Some (Inl e, s2)
                 | (Inr u, s2) \<Rightarrow> Some (Inr (result_path p product_model target_soc), s2)))
         \<and> lock_acquisitions (trace (snd (the (adb_run env p s)))) = lock_acquisitions (trace s)
         \<and> jobs_run (trace (snd (the (adb_run env p s)))) = jobs_run (trace s)"
proof -
  have e: "adb_run env p s =
           (case adb_run_prologue env p s of
              (Inl e, s1) \<Rightarrow> Some (Inl e, s1)
            | (Inr (product_model, target_soc), s1) \<Rightarrow>
                (case adb_pull env (device_bin_path p @ ''/result.txt'')
                        (result_path p product_model target_soc) (serialno p) s1 of
                   (Inl e, s2) \<Rightarrow> Some (Inl e, s2)
                 | (Inr u, s2) \<Rightarrow> Some (Inr (result_path p product_model target_soc), s2)))"
    by (simp add: adb_run_def adb_run_loop_empty [OF assms] Let_def
          split: prod.split sum.split)
  obtain r s' where r: "adb_run env p s = Some (r, s')"
    using e by (auto split: prod.splits sum.splits)
  have l: "lock_acquisitions (trace s') = lock_acquisitions (trace s)"
    using r lockless_prologue [of env p s]
    by (auto simp: e adb_pull_eq split: prod.splits sum.splits reply.splits)
  from adb_run_jobs [OF r] assms have j: "jobs_run (trace s') = jobs_run (trace s)" by auto
  have t: "snd (the (adb_run env p s)) = s'" by (simp add: r)
  from e l [folded t] j [folded t] show ?thesis by blast
qed

theorem adb_run_empty_list_skips_the_lock_witness:
  "benchmark_list (demo_params 60 []) = []
   \<and> adb_run (demo_env []) (demo_params 60 []) demo_start
     = Some (Inr ''output/MI 8_sdm845_arm64-v8a_result.txt'',
             \<lparr>world = (0, []),
              trace = [Adb [''-s'', ''abc123'', ''shell'',
                            ''rm -rf /data/local/tmp/aibench/result.txt''],
                       Adb [''-s'', ''abc123'', ''shell'', ''getprop''],
                       Iconv ''[ro.product.model]: [MI 8]\<newline>[ro.board.platform]: [sdm845]\<newline>''
                         [''-c'', ''-t'', ''UTF-8''],
                       Print ''Pull /data/local/tmp/aibench/result.txt to output/MI 8_sdm845_arm64-v8a_result.txt'',
                       Adb [''-s'', ''abc123'', ''pull'', ''/data/local/tmp/aibench/result.txt'',
                            ''output/MI 8_sdm845_arm64-v8a_result.txt'']]\<rparr>)"
proof -
  have b: "benchmark_list (demo_params 60 []) = []" by (simp add: demo_defs)
  from adb_run_empty_list_skips_the_lock [OF b, of "demo_env []" demo_start] b
  show ?thesis
    by (simp add: demo_prologue [unfolded demo_start_def] adb_pull_eq demo_defs result_path_def)
qed

text \<open>
  C2 as stated fails: on an empty job list the run returns its path with no lock
  acquisition in its trace.
\<close>

theorem adb_run_empty_list_counterexample:
  "fst (the (adb_run (demo_env []) (demo_params 60 []) demo_start))
     = Inr ''output/MI 8_sdm845_arm64-v8a_result.txt''
   \<and> lock_acquisitions (trace (snd (the (adb_run (demo_env []) (demo_params 60 []) demo_start))))
     = 0"
  by (simp add: adb_run_def demo_prologue adb_run_loop_empty adb_pull_eq demo_params_sel
        demo_env_sel demo_reply_def demo_step_def result_path_def Let_def)


end
